theory Spec2Isabelle
  imports Main "HOL-Library.Word" "HOL-Library.Multiset"
begin

section \<open>Errors and the Condition checks\<close>

text \<open>
  Every \<^verbatim>\<open>raise\<close> of the source is a value: a function that can raise returns
  \<open>error + 'a\<close>, with \<open>Inl\<close> the exception. In \<^verbatim>\<open>execution/client.pyx\<close> every check
  that can raise stands before the first effect of its method (drawing a UUID, reading
  the clock, sending on the bus), so \<open>Inl e\<close> also says that the call left every object
  as it was.
\<close>

datatype condition = NotNone | Equal | NotEqual

datatype error =
    ConditionFailed condition string
  | NoneArgument string
  | OverflowError string

text \<open>
  Modelled from the spec: \<^verbatim>\<open>Condition\<close> of \<^verbatim>\<open>nautilus_trader.core.correctness\<close> is
  called by \<^verbatim>\<open>execution/client.pyx\<close> and is not among the source files. Each check
  raises when its condition fails (spec 4.4 and 7: "mismatch => error", "Validation ...
  raised at the boundary") and does nothing otherwise. The string is the parameter name
  the caller passes.
\<close>

definition Condition_not_none :: "'a option \<Rightarrow> string \<Rightarrow> error + 'a" where
  "Condition_not_none argument param =
     (case argument of None \<Rightarrow> Inl (ConditionFailed NotNone param) | Some x \<Rightarrow> Inr x)"

definition Condition_equal :: "'a \<Rightarrow> 'a \<Rightarrow> string \<Rightarrow> string \<Rightarrow> error + unit" where
  "Condition_equal argument1 argument2 param1 param2 =
     (if argument1 = argument2 then Inr () else Inl (ConditionFailed Equal param1))"

definition Condition_not_equal :: "'a \<Rightarrow> 'a \<Rightarrow> string \<Rightarrow> string \<Rightarrow> error + unit" where
  "Condition_not_equal argument1 argument2 param1 param2 =
     (if argument1 \<noteq> argument2 then Inr () else Inl (ConditionFailed NotEqual param1))"

text \<open>
  A parameter declared \<^verbatim>\<open>not None\<close> in a Cython signature is checked when the call is
  made, before the body runs.
\<close>

definition arg_not_none :: "'a option \<Rightarrow> string \<Rightarrow> error + 'a" where
  "arg_not_none argument param =
     (case argument of None \<Rightarrow> Inl (NoneArgument param) | Some x \<Rightarrow> Inr x)"

section \<open>Identifiers and value types\<close>

text \<open>
  The identifier classes are string-backed values. A parameter typed with a class and not
  declared \<^verbatim>\<open>not None\<close> accepts \<^verbatim>\<open>None\<close>, so such parameters and fields are options.
\<close>

type_synonym TraderId = string
type_synonym StrategyId = string
type_synonym InstrumentId = string
type_synonym ClientOrderId = string
type_synonym VenueOrderId = string
type_synonym PositionId = string
type_synonym TradeId = string
type_synonym Venue = string
type_synonym Currency = string

datatype ClientId = ClientId (cid_value: string)

datatype AccountId = AccountId (aid_value: string)

text \<open>
  Modelled from the spec: \<^verbatim>\<open>AccountId\<close> of \<^verbatim>\<open>nautilus_trader.model.identifiers\<close> is not
  among the source files. Spec 6: "AccountId has form <ISSUER>-<ID>; issuer() returns the
  prefix".
\<close>

definition issuer :: "AccountId \<Rightarrow> string" where
  "issuer a = takeWhile (\<lambda>c. c \<noteq> CHR ''-'') (aid_value a)"

text \<open>
  Modelled from the spec: the enums of \<^verbatim>\<open>nautilus_trader.model.c_enums\<close> and the value
  classes of \<^verbatim>\<open>nautilus_trader.model.objects\<close> are not among the source files. Of
  \<^verbatim>\<open>OMSType\<close> the constructor names \<^verbatim>\<open>NONE\<close> (line 114) and the glossary of the spec
  \<^verbatim>\<open>NETTING\<close> and \<^verbatim>\<open>HEDGING\<close>; the members of \<^verbatim>\<open>OrderSide\<close> and
  \<^verbatim>\<open>LiquiditySide\<close> are those the docstring of \<^verbatim>\<open>generate_order_filled\<close> lists. The
  other enums are their C values and the value classes are opaque: the client only passes
  them on.
\<close>

datatype OMSType = OMS_NONE | OMS_NETTING | OMS_HEDGING
datatype OrderSide = BUY | SELL
datatype LiquiditySide = LIQ_NONE | MAKER | TAKER
datatype AccountType = AccountType nat
datatype OrderType = OrderType nat

datatype Price = Price int
datatype Quantity = Quantity nat
datatype Money = Money int Currency
datatype AccountBalance = AccountBalance Currency int
datatype MarginBalance = MarginBalance Currency int

datatype UUID4 = UUID4 nat

text \<open>
  Modelled from the spec: \<^verbatim>\<open>UUID4()\<close> of \<^verbatim>\<open>nautilus_trader.core.uuid\<close> is not among the
  source files. Spec 4.4: each generator "constructs the event with a fresh event_id".
  The process's source of identifiers is a counter: every call returns the next value and
  advances it, so no value is returned twice.
\<close>

definition UUID4_new :: "nat \<Rightarrow> UUID4 \<times> nat" where
  "UUID4_new source = (UUID4 source, Suc source)"

section \<open>Events, reports and messages\<close>

text \<open>
  Modelled from the spec: the event classes of \<^verbatim>\<open>nautilus_trader.model.events\<close> are not
  among the source files. An event is the record of the keyword arguments its constructor
  is called with (spec 3: "a tagged record with common header ... and variant payload").
  \<open>e_ts_event\<close> holds the caller's \<^verbatim>\<open>int64_t\<close> (read with \<open>sint\<close>), \<open>e_ts_init\<close> the
  clock's \<^verbatim>\<open>uint64_t\<close> (read with \<open>uint\<close>).
\<close>

datatype OrderEventPayload =
    OrderSubmitted
  | OrderRejected "string option"
  | OrderAccepted "VenueOrderId option"
  | OrderPendingUpdate "VenueOrderId option"
  | OrderPendingCancel "VenueOrderId option"
  | OrderModifyRejected "VenueOrderId option" "string option"
  | OrderCancelRejected "VenueOrderId option" "string option"
  | OrderUpdated "VenueOrderId option" "Quantity option" "Price option" "Price option"
  | OrderCanceled "VenueOrderId option"
  | OrderTriggered "VenueOrderId option"
  | OrderExpired "VenueOrderId option"
  | OrderFilled "VenueOrderId option" "TradeId option" "PositionId option" OrderSide
      OrderType "Quantity option" "Price option" "Currency option" "Money option"
      LiquiditySide

record OrderEvent =
  e_trader_id :: TraderId
  e_strategy_id :: "StrategyId option"
  e_account_id :: "AccountId option"
  e_instrument_id :: "InstrumentId option"
  e_client_order_id :: "ClientOrderId option"
  e_payload :: OrderEventPayload
  e_event_id :: UUID4
  e_ts_event :: "64 word"
  e_ts_init :: "64 word"

record AccountState =
  as_account_id :: "AccountId option"
  as_account_type :: AccountType
  as_base_currency :: "Currency option"
  as_reported :: bool
  as_balances :: "AccountBalance list option"
  as_margins :: "MarginBalance list option"
  as_info :: "(string \<times> string) list"
  as_event_id :: UUID4
  as_ts_event :: "64 word"
  as_ts_init :: "64 word"

datatype ExecutionMassStatus = ExecutionMassStatus string
datatype OrderStatusReport = OrderStatusReport string
datatype TradeReport = TradeReport string

datatype Message =
    MsgAccountState AccountState
  | MsgOrderEvent OrderEvent
  | MsgMassStatus ExecutionMassStatus
  | MsgOrderStatusReport OrderStatusReport
  | MsgTradeReport TradeReport

section \<open>The collaborators of an execution client\<close>

text \<open>
  Modelled from the spec: \<^verbatim>\<open>MessageBus.send\<close> of \<^verbatim>\<open>nautilus_trader.msgbus.bus\<close> is not
  among the source files. Spec 4.2: \<^verbatim>\<open>send(endpoint, msg)\<close> is point-to-point, raises no
  error and "increments sent". The bus keeps what was sent, oldest first.
\<close>

record MessageBus =
  mb_trader_id :: TraderId
  sent :: "(string \<times> Message) list"

definition send :: "MessageBus \<Rightarrow> string \<Rightarrow> Message \<Rightarrow> MessageBus" where
  "send bus endpoint msg = bus\<lparr>sent := sent bus @ [(endpoint, msg)]\<rparr>"

text \<open>
  The clock of a client: \<^verbatim>\<open>timestamp_ns\<close> returns a \<^verbatim>\<open>uint64_t\<close>
  (\<^verbatim>\<open>test_clock_timestamp_ns\<close>, \<^verbatim>\<open>live_clock_timestamp_ns\<close>).
\<close>

record Clock =
  time_ns :: "64 word"

definition timestamp_ns :: "Clock \<Rightarrow> 64 word" where
  "timestamp_ns clk = time_ns clk"

text \<open>The cache, as far as the client reads it: \<^verbatim>\<open>venue_order_id(client_order_id)\<close>.\<close>

type_synonym Cache = "ClientOrderId \<Rightarrow> VenueOrderId option"

definition venue_order_id :: "Cache \<Rightarrow> ClientOrderId \<Rightarrow> VenueOrderId option" where
  "venue_order_id c client_order_id = c client_order_id"

datatype Logger = Logger

section \<open>ExecutionClient\<close>

text \<open>
  The object of \<^verbatim>\<open>cdef class ExecutionClient(Component)\<close> with the objects it holds.
  \<open>uuid_source\<close> is the state of the process's \<^verbatim>\<open>UUID4()\<close>, threaded with the client.
\<close>

record ExecutionClient =
  component_id :: ClientId
  component_name :: string
  config :: "(string \<times> string) list"
  cache :: Cache
  clock :: Clock
  msgbus :: MessageBus
  trader_id :: TraderId
  venue :: "Venue option"
  oms_type :: OMSType
  account_id :: "AccountId option"
  account_type :: AccountType
  base_currency :: "Currency option"
  is_connected :: bool
  uuid_source :: nat

text \<open>\<^verbatim>\<open>config.get("name", default)\<close>\<close>

definition dict_get :: "(string \<times> string) list \<Rightarrow> string \<Rightarrow> string \<Rightarrow> string" where
  "dict_get d k dflt = (case map_of d k of None \<Rightarrow> dflt | Some v \<Rightarrow> v)"

text \<open>
  \<^verbatim>\<open>ExecutionClient.__init__\<close>, lines 101-135. The \<^verbatim>\<open>not None\<close> parameters are checked
  in the order of the signature, then the body runs. \<^verbatim>\<open>super().__init__\<close>
  (\<^verbatim>\<open>Component\<close>, not among the source files) keeps the component ID, the name and the
  configuration it is given.
\<close>

definition ExecutionClient_init ::
  "ClientId option \<Rightarrow> Venue option \<Rightarrow> OMSType \<Rightarrow> AccountType \<Rightarrow> Currency option \<Rightarrow>
   MessageBus option \<Rightarrow> Cache option \<Rightarrow> Clock option \<Rightarrow> Logger option \<Rightarrow>
   (string \<times> string) list option \<Rightarrow> nat \<Rightarrow> error + ExecutionClient" where
  "ExecutionClient_init client_id venue' oms_type' account_type' base_currency' msgbus'
     cache' clock' logger config' uuids =
     (case arg_not_none client_id ''client_id'' of Inl e \<Rightarrow> Inl e | Inr cid \<Rightarrow>
     (case arg_not_none msgbus' ''msgbus'' of Inl e \<Rightarrow> Inl e | Inr bus \<Rightarrow>
     (case arg_not_none cache' ''cache'' of Inl e \<Rightarrow> Inl e | Inr cch \<Rightarrow>
     (case arg_not_none clock' ''clock'' of Inl e \<Rightarrow> Inl e | Inr clk \<Rightarrow>
     (case arg_not_none logger ''logger'' of Inl e \<Rightarrow> Inl e | Inr lg \<Rightarrow>
     (case Condition_not_equal oms_type' OMS_NONE ''oms_type'' ''OMSType'' of
        Inl e \<Rightarrow> Inl e
      | Inr u \<Rightarrow>
          (let cfg = (case config' of None \<Rightarrow> [] | Some d \<Rightarrow> d) in
           Inr \<lparr> component_id = cid,
                 component_name = dict_get cfg ''name'' (''ExecClient-'' @ cid_value cid),
                 config = cfg,
                 cache = cch,
                 clock = clk,
                 msgbus = bus,
                 trader_id = mb_trader_id bus,
                 venue = venue',
                 oms_type = oms_type',
                 account_id = None,
                 account_type = account_type',
                 base_currency = base_currency',
                 is_connected = False,
                 uuid_source = uuids \<rparr>)))))))"

text \<open>\<^verbatim>\<open>_set_connected\<close>, lines 140-142.\<close>

definition set_connected :: "ExecutionClient \<Rightarrow> bool \<Rightarrow> ExecutionClient" where
  "set_connected self v = self\<lparr>is_connected := v\<rparr>"

text \<open>\<^verbatim>\<open>_set_account_id\<close>, lines 144-148.\<close>

definition set_account_id :: "ExecutionClient \<Rightarrow> AccountId option \<Rightarrow> error + ExecutionClient" where
  "set_account_id self account_id' =
     (case Condition_not_none account_id' ''account_id'' of Inl e \<Rightarrow> Inl e | Inr a \<Rightarrow>
     (case Condition_equal (cid_value (component_id self)) (issuer a) ''id.value'' ''account_id.issuer'' of
        Inl e \<Rightarrow> Inl e
      | Inr u \<Rightarrow> Inr (self\<lparr>account_id := Some a\<rparr>)))"

subsection \<open>Sending\<close>

text \<open>Lines 781-809.\<close>

definition send_account_state :: "ExecutionClient \<Rightarrow> AccountState \<Rightarrow> ExecutionClient" where
  "send_account_state self account_state =
     self\<lparr>msgbus := send (msgbus self) ''Portfolio.update_account'' (MsgAccountState account_state)\<rparr>"

definition send_order_event :: "ExecutionClient \<Rightarrow> OrderEvent \<Rightarrow> ExecutionClient" where
  "send_order_event self event =
     self\<lparr>msgbus := send (msgbus self) ''ExecEngine.process'' (MsgOrderEvent event)\<rparr>"

definition send_mass_status_report :: "ExecutionClient \<Rightarrow> ExecutionMassStatus \<Rightarrow> ExecutionClient" where
  "send_mass_status_report self report =
     self\<lparr>msgbus := send (msgbus self) ''ExecEngine.reconcile_mass_status'' (MsgMassStatus report)\<rparr>"

definition send_order_status_report :: "ExecutionClient \<Rightarrow> OrderStatusReport \<Rightarrow> ExecutionClient" where
  "send_order_status_report self report =
     self\<lparr>msgbus := send (msgbus self) ''ExecEngine.reconcile_report'' (MsgOrderStatusReport report)\<rparr>"

definition send_trade_report :: "ExecutionClient \<Rightarrow> TradeReport \<Rightarrow> ExecutionClient" where
  "send_trade_report self report =
     self\<lparr>msgbus := send (msgbus self) ''ExecEngine.reconcile_report'' (MsgTradeReport report)\<rparr>"

subsection \<open>Event generators\<close>

text \<open>
  Each generator builds its event from the keyword arguments in the order written
  (\<^verbatim>\<open>event_id=UUID4()\<close>, then \<^verbatim>\<open>ts_init=self._clock.timestamp_ns()\<close>) and hands it to
  its \<^verbatim>\<open>_send_\<close> method. \<^verbatim>\<open>ts_event\<close> is the \<^verbatim>\<open>int64_t\<close> of the signature.
\<close>

text \<open>\<^verbatim>\<open>info or {}\<close>: an absent or empty dictionary gives the empty one.\<close>

definition info_or_empty :: "(string \<times> string) list option \<Rightarrow> (string \<times> string) list" where
  "info_or_empty info = (case info of None \<Rightarrow> [] | Some d \<Rightarrow> (if d = [] then [] else d))"

text \<open>\<^verbatim>\<open>generate_account_state\<close>, lines 190-229.\<close>

definition generate_account_state ::
  "ExecutionClient \<Rightarrow> AccountBalance list option \<Rightarrow> MarginBalance list option \<Rightarrow> bool \<Rightarrow>
   64 word \<Rightarrow> (string \<times> string) list option \<Rightarrow> error + ExecutionClient" where
  "generate_account_state self balances margins reported ts_event info =
     (let (event_id, uuids) = UUID4_new (uuid_source self);
          account_state = \<lparr> as_account_id = account_id self,
                            as_account_type = account_type self,
                            as_base_currency = base_currency self,
                            as_reported = reported,
                            as_balances = balances,
                            as_margins = margins,
                            as_info = info_or_empty info,
                            as_event_id = event_id,
                            as_ts_event = ts_event,
                            as_ts_init = timestamp_ns (clock self) \<rparr>
      in Inr (send_account_state (self\<lparr>uuid_source := uuids\<rparr>) account_state))"

text \<open>\<^verbatim>\<open>generate_order_submitted\<close>, lines 231-265. The trader ID is read from the bus here, from the client in the other generators.\<close>

definition generate_order_submitted ::
  "ExecutionClient \<Rightarrow> StrategyId option \<Rightarrow> InstrumentId option \<Rightarrow> ClientOrderId option \<Rightarrow> 64 word \<Rightarrow> error + ExecutionClient" where
  "generate_order_submitted self strategy_id instrument_id client_order_id ts_event =
     (let (event_id, uuids) = UUID4_new (uuid_source self);
          submitted = \<lparr> e_trader_id = mb_trader_id (msgbus self),
                     e_strategy_id = strategy_id,
                     e_account_id = account_id self,
                     e_instrument_id = instrument_id,
                     e_client_order_id = client_order_id,
                     e_payload = OrderSubmitted,
                     e_event_id = event_id,
                     e_ts_event = ts_event,
                     e_ts_init = timestamp_ns (clock self) \<rparr>
      in Inr (send_order_event (self\<lparr>uuid_source := uuids\<rparr>) submitted))"

text \<open>\<^verbatim>\<open>generate_order_rejected\<close>, lines 267-305.\<close>

definition generate_order_rejected ::
  "ExecutionClient \<Rightarrow> StrategyId option \<Rightarrow> InstrumentId option \<Rightarrow> ClientOrderId option \<Rightarrow> string option \<Rightarrow> 64 word \<Rightarrow> error + ExecutionClient" where
  "generate_order_rejected self strategy_id instrument_id client_order_id reason ts_event =
     (let (event_id, uuids) = UUID4_new (uuid_source self);
          rejected = \<lparr> e_trader_id = trader_id self,
                     e_strategy_id = strategy_id,
                     e_account_id = account_id self,
                     e_instrument_id = instrument_id,
                     e_client_order_id = client_order_id,
                     e_payload = OrderRejected reason,
                     e_event_id = event_id,
                     e_ts_event = ts_event,
                     e_ts_init = timestamp_ns (clock self) \<rparr>
      in Inr (send_order_event (self\<lparr>uuid_source := uuids\<rparr>) rejected))"

text \<open>\<^verbatim>\<open>generate_order_accepted\<close>, lines 307-345.\<close>

definition generate_order_accepted ::
  "ExecutionClient \<Rightarrow> StrategyId option \<Rightarrow> InstrumentId option \<Rightarrow> ClientOrderId option \<Rightarrow> VenueOrderId option \<Rightarrow> 64 word \<Rightarrow> error + ExecutionClient" where
  "generate_order_accepted self strategy_id instrument_id client_order_id venue_order_id' ts_event =
     (let (event_id, uuids) = UUID4_new (uuid_source self);
          accepted = \<lparr> e_trader_id = trader_id self,
                     e_strategy_id = strategy_id,
                     e_account_id = account_id self,
                     e_instrument_id = instrument_id,
                     e_client_order_id = client_order_id,
                     e_payload = OrderAccepted venue_order_id',
                     e_event_id = event_id,
                     e_ts_event = ts_event,
                     e_ts_init = timestamp_ns (clock self) \<rparr>
      in Inr (send_order_event (self\<lparr>uuid_source := uuids\<rparr>) accepted))"

text \<open>\<^verbatim>\<open>generate_order_pending_update\<close>, lines 347-385.\<close>

definition generate_order_pending_update ::
  "ExecutionClient \<Rightarrow> StrategyId option \<Rightarrow> InstrumentId option \<Rightarrow> ClientOrderId option \<Rightarrow> VenueOrderId option \<Rightarrow> 64 word \<Rightarrow> error + ExecutionClient" where
  "generate_order_pending_update self strategy_id instrument_id client_order_id venue_order_id' ts_event =
     (let (event_id, uuids) = UUID4_new (uuid_source self);
          pending_replace = \<lparr> e_trader_id = trader_id self,
                     e_strategy_id = strategy_id,
                     e_account_id = account_id self,
                     e_instrument_id = instrument_id,
                     e_client_order_id = client_order_id,
                     e_payload = OrderPendingUpdate venue_order_id',
                     e_event_id = event_id,
                     e_ts_event = ts_event,
                     e_ts_init = timestamp_ns (clock self) \<rparr>
      in Inr (send_order_event (self\<lparr>uuid_source := uuids\<rparr>) pending_replace))"

text \<open>\<^verbatim>\<open>generate_order_pending_cancel\<close>, lines 387-425.\<close>

definition generate_order_pending_cancel ::
  "ExecutionClient \<Rightarrow> StrategyId option \<Rightarrow> InstrumentId option \<Rightarrow> ClientOrderId option \<Rightarrow> VenueOrderId option \<Rightarrow> 64 word \<Rightarrow> error + ExecutionClient" where
  "generate_order_pending_cancel self strategy_id instrument_id client_order_id venue_order_id' ts_event =
     (let (event_id, uuids) = UUID4_new (uuid_source self);
          pending_cancel = \<lparr> e_trader_id = trader_id self,
                     e_strategy_id = strategy_id,
                     e_account_id = account_id self,
                     e_instrument_id = instrument_id,
                     e_client_order_id = client_order_id,
                     e_payload = OrderPendingCancel venue_order_id',
                     e_event_id = event_id,
                     e_ts_event = ts_event,
                     e_ts_init = timestamp_ns (clock self) \<rparr>
      in Inr (send_order_event (self\<lparr>uuid_source := uuids\<rparr>) pending_cancel))"

text \<open>\<^verbatim>\<open>generate_order_modify_rejected\<close>, lines 427-469.\<close>

definition generate_order_modify_rejected ::
  "ExecutionClient \<Rightarrow> StrategyId option \<Rightarrow> InstrumentId option \<Rightarrow> ClientOrderId option \<Rightarrow> VenueOrderId option \<Rightarrow> string option \<Rightarrow> 64 word \<Rightarrow> error + ExecutionClient" where
  "generate_order_modify_rejected self strategy_id instrument_id client_order_id venue_order_id' reason ts_event =
     (let (event_id, uuids) = UUID4_new (uuid_source self);
          modify_rejected = \<lparr> e_trader_id = trader_id self,
                     e_strategy_id = strategy_id,
                     e_account_id = account_id self,
                     e_instrument_id = instrument_id,
                     e_client_order_id = client_order_id,
                     e_payload = OrderModifyRejected venue_order_id' reason,
                     e_event_id = event_id,
                     e_ts_event = ts_event,
                     e_ts_init = timestamp_ns (clock self) \<rparr>
      in Inr (send_order_event (self\<lparr>uuid_source := uuids\<rparr>) modify_rejected))"

text \<open>\<^verbatim>\<open>generate_order_cancel_rejected\<close>, lines 471-513.\<close>

definition generate_order_cancel_rejected ::
  "ExecutionClient \<Rightarrow> StrategyId option \<Rightarrow> InstrumentId option \<Rightarrow> ClientOrderId option \<Rightarrow> VenueOrderId option \<Rightarrow> string option \<Rightarrow> 64 word \<Rightarrow> error + ExecutionClient" where
  "generate_order_cancel_rejected self strategy_id instrument_id client_order_id venue_order_id' reason ts_event =
     (let (event_id, uuids) = UUID4_new (uuid_source self);
          cancel_rejected = \<lparr> e_trader_id = trader_id self,
                     e_strategy_id = strategy_id,
                     e_account_id = account_id self,
                     e_instrument_id = instrument_id,
                     e_client_order_id = client_order_id,
                     e_payload = OrderCancelRejected venue_order_id' reason,
                     e_event_id = event_id,
                     e_ts_event = ts_event,
                     e_ts_init = timestamp_ns (clock self) \<rparr>
      in Inr (send_order_event (self\<lparr>uuid_source := uuids\<rparr>) cancel_rejected))"

text \<open>
  \<^verbatim>\<open>generate_order_updated\<close>, lines 515-576. The two \<^verbatim>\<open>Condition.not_none\<close> checks come
  first; the cache is read only when \<^verbatim>\<open>venue_order_id_modified\<close> is false, and
  \<^verbatim>\<open>Condition.equal\<close> compares what the cache returns (possibly \<^verbatim>\<open>None\<close>) with the
  venue order ID supplied.
\<close>

definition generate_order_updated ::
  "ExecutionClient \<Rightarrow> StrategyId option \<Rightarrow> InstrumentId option \<Rightarrow> ClientOrderId option \<Rightarrow>
   VenueOrderId option \<Rightarrow> Quantity option \<Rightarrow> Price option \<Rightarrow> Price option \<Rightarrow> 64 word \<Rightarrow>
   bool \<Rightarrow> error + ExecutionClient" where
  "generate_order_updated self strategy_id instrument_id client_order_id venue_order_id'
     quantity price trigger_price ts_event venue_order_id_modified =
     (case Condition_not_none client_order_id ''client_order_id'' of Inl e \<Rightarrow> Inl e | Inr coid \<Rightarrow>
     (case Condition_not_none venue_order_id' ''venue_order_id'' of Inl e \<Rightarrow> Inl e | Inr void \<Rightarrow>
     (case (if \<not> venue_order_id_modified
            then Condition_equal (venue_order_id (cache self) coid) (Some void)
                   ''existing'' ''order.venue_order_id''
            else Inr ()) of
        Inl e \<Rightarrow> Inl e
      | Inr u \<Rightarrow>
         (let (event_id, uuids) = UUID4_new (uuid_source self);
              updated = \<lparr> e_trader_id = trader_id self,
                          e_strategy_id = strategy_id,
                          e_account_id = account_id self,
                          e_instrument_id = instrument_id,
                          e_client_order_id = client_order_id,
                          e_payload = OrderUpdated venue_order_id' quantity price trigger_price,
                          e_event_id = event_id,
                          e_ts_event = ts_event,
                          e_ts_init = timestamp_ns (clock self) \<rparr>
          in Inr (send_order_event (self\<lparr>uuid_source := uuids\<rparr>) updated)))))"

text \<open>\<^verbatim>\<open>generate_order_canceled\<close>, lines 578-616.\<close>

definition generate_order_canceled ::
  "ExecutionClient \<Rightarrow> StrategyId option \<Rightarrow> InstrumentId option \<Rightarrow> ClientOrderId option \<Rightarrow> VenueOrderId option \<Rightarrow> 64 word \<Rightarrow> error + ExecutionClient" where
  "generate_order_canceled self strategy_id instrument_id client_order_id venue_order_id' ts_event =
     (let (event_id, uuids) = UUID4_new (uuid_source self);
          canceled = \<lparr> e_trader_id = trader_id self,
                     e_strategy_id = strategy_id,
                     e_account_id = account_id self,
                     e_instrument_id = instrument_id,
                     e_client_order_id = client_order_id,
                     e_payload = OrderCanceled venue_order_id',
                     e_event_id = event_id,
                     e_ts_event = ts_event,
                     e_ts_init = timestamp_ns (clock self) \<rparr>
      in Inr (send_order_event (self\<lparr>uuid_source := uuids\<rparr>) canceled))"

text \<open>\<^verbatim>\<open>generate_order_triggered\<close>, lines 618-656.\<close>

definition generate_order_triggered ::
  "ExecutionClient \<Rightarrow> StrategyId option \<Rightarrow> InstrumentId option \<Rightarrow> ClientOrderId option \<Rightarrow> VenueOrderId option \<Rightarrow> 64 word \<Rightarrow> error + ExecutionClient" where
  "generate_order_triggered self strategy_id instrument_id client_order_id venue_order_id' ts_event =
     (let (event_id, uuids) = UUID4_new (uuid_source self);
          triggered = \<lparr> e_trader_id = trader_id self,
                     e_strategy_id = strategy_id,
                     e_account_id = account_id self,
                     e_instrument_id = instrument_id,
                     e_client_order_id = client_order_id,
                     e_payload = OrderTriggered venue_order_id',
                     e_event_id = event_id,
                     e_ts_event = ts_event,
                     e_ts_init = timestamp_ns (clock self) \<rparr>
      in Inr (send_order_event (self\<lparr>uuid_source := uuids\<rparr>) triggered))"

text \<open>\<^verbatim>\<open>generate_order_expired\<close>, lines 658-696.\<close>

definition generate_order_expired ::
  "ExecutionClient \<Rightarrow> StrategyId option \<Rightarrow> InstrumentId option \<Rightarrow> ClientOrderId option \<Rightarrow> VenueOrderId option \<Rightarrow> 64 word \<Rightarrow> error + ExecutionClient" where
  "generate_order_expired self strategy_id instrument_id client_order_id venue_order_id' ts_event =
     (let (event_id, uuids) = UUID4_new (uuid_source self);
          expired = \<lparr> e_trader_id = trader_id self,
                     e_strategy_id = strategy_id,
                     e_account_id = account_id self,
                     e_instrument_id = instrument_id,
                     e_client_order_id = client_order_id,
                     e_payload = OrderExpired venue_order_id',
                     e_event_id = event_id,
                     e_ts_event = ts_event,
                     e_ts_init = timestamp_ns (clock self) \<rparr>
      in Inr (send_order_event (self\<lparr>uuid_source := uuids\<rparr>) expired))"

text \<open>\<^verbatim>\<open>generate_order_filled\<close>, lines 698-777.\<close>

definition generate_order_filled ::
  "ExecutionClient \<Rightarrow> StrategyId option \<Rightarrow> InstrumentId option \<Rightarrow> ClientOrderId option \<Rightarrow>
   VenueOrderId option \<Rightarrow> PositionId option \<Rightarrow> TradeId option \<Rightarrow> OrderSide \<Rightarrow> OrderType \<Rightarrow>
   Quantity option \<Rightarrow> Price option \<Rightarrow> Currency option \<Rightarrow> Money option \<Rightarrow> LiquiditySide \<Rightarrow>
   64 word \<Rightarrow> error + ExecutionClient" where
  "generate_order_filled self strategy_id instrument_id client_order_id venue_order_id'
     venue_position_id trade_id order_side order_type last_qty last_px quote_currency
     commission liquidity_side ts_event =
     (case Condition_not_none instrument_id ''instrument_id'' of Inl e \<Rightarrow> Inl e | Inr iid \<Rightarrow>
        (let (event_id, uuids) = UUID4_new (uuid_source self);
             fill = \<lparr> e_trader_id = trader_id self,
                      e_strategy_id = strategy_id,
                      e_account_id = account_id self,
                      e_instrument_id = instrument_id,
                      e_client_order_id = client_order_id,
                      e_payload = OrderFilled venue_order_id' trade_id venue_position_id
                                    order_side order_type last_qty last_px quote_currency
                                    commission liquidity_side,
                      e_event_id = event_id,
                      e_ts_event = ts_event,
                      e_ts_init = timestamp_ns (clock self) \<rparr>
         in Inr (send_order_event (self\<lparr>uuid_source := uuids\<rparr>) fill)))"

subsection \<open>Calls from Python\<close>

text \<open>
  A Python caller passes an unbounded integer for a parameter declared \<^verbatim>\<open>int64_t\<close> or
  \<^verbatim>\<open>uint64_t\<close>; the generated wrapper converts it before the body runs and raises
  \<^verbatim>\<open>OverflowError\<close> when the value does not fit the C type.
\<close>

definition int64_t_of_py :: "int \<Rightarrow> error + 64 word" where
  "int64_t_of_py n =
     (if - (2 ^ 63) \<le> n \<and> n < 2 ^ 63 then Inr (word_of_int n)
      else Inl (OverflowError ''int64_t''))"

definition uint64_t_of_py :: "int \<Rightarrow> error + 64 word" where
  "uint64_t_of_py n =
     (if 0 \<le> n \<and> n < 2 ^ 64 then Inr (word_of_int n)
      else Inl (OverflowError ''uint64_t''))"

text \<open>A generator called with the Python integer \<open>ts_event\<close> for its \<^verbatim>\<open>int64_t\<close>.\<close>

definition py_ts_event :: "int \<Rightarrow> (64 word \<Rightarrow> error + 'a) \<Rightarrow> error + 'a" where
  "py_ts_event ts_event generator =
     (case int64_t_of_py ts_event of Inl e \<Rightarrow> Inl e | Inr w \<Rightarrow> generator w)"

text \<open>
  \<^verbatim>\<open>TimeEvent_t\<close> and \<^verbatim>\<open>time_event_new\<close>, lines 168-177 and 493-496 of the generated
  declarations: both timestamps are \<^verbatim>\<open>uint64_t\<close>.
\<close>

record TimeEvent_t =
  te_name :: string
  te_event_id :: UUID4
  te_ts_event :: "64 word"
  te_ts_init :: "64 word"

definition time_event_new :: "string \<Rightarrow> UUID4 \<Rightarrow> 64 word \<Rightarrow> 64 word \<Rightarrow> TimeEvent_t" where
  "time_event_new name event_id ts_event ts_init =
     \<lparr> te_name = name, te_event_id = event_id, te_ts_event = ts_event, te_ts_init = ts_init \<rparr>"

subsection \<open>Calls and runs\<close>

text \<open>
  One call of an event generator with its arguments, and a run: a sequence of such calls
  on one client, where a call that raises leaves the client as it was and the run goes on.
\<close>

datatype GeneratorCall =
    AccountStateCall "AccountBalance list option" "MarginBalance list option" bool "64 word"
      "(string \<times> string) list option"
  | SubmittedCall "StrategyId option" "InstrumentId option" "ClientOrderId option" "64 word"
  | RejectedCall "StrategyId option" "InstrumentId option" "ClientOrderId option"
      "string option" "64 word"
  | AcceptedCall "StrategyId option" "InstrumentId option" "ClientOrderId option"
      "VenueOrderId option" "64 word"
  | PendingUpdateCall "StrategyId option" "InstrumentId option" "ClientOrderId option"
      "VenueOrderId option" "64 word"
  | PendingCancelCall "StrategyId option" "InstrumentId option" "ClientOrderId option"
      "VenueOrderId option" "64 word"
  | ModifyRejectedCall "StrategyId option" "InstrumentId option" "ClientOrderId option"
      "VenueOrderId option" "string option" "64 word"
  | CancelRejectedCall "StrategyId option" "InstrumentId option" "ClientOrderId option"
      "VenueOrderId option" "string option" "64 word"
  | UpdatedCall "StrategyId option" "InstrumentId option" "ClientOrderId option"
      "VenueOrderId option" "Quantity option" "Price option" "Price option" "64 word" bool
  | CanceledCall "StrategyId option" "InstrumentId option" "ClientOrderId option"
      "VenueOrderId option" "64 word"
  | TriggeredCall "StrategyId option" "InstrumentId option" "ClientOrderId option"
      "VenueOrderId option" "64 word"
  | ExpiredCall "StrategyId option" "InstrumentId option" "ClientOrderId option"
      "VenueOrderId option" "64 word"
  | FilledCall "StrategyId option" "InstrumentId option" "ClientOrderId option"
      "VenueOrderId option" "PositionId option" "TradeId option" OrderSide OrderType
      "Quantity option" "Price option" "Currency option" "Money option" LiquiditySide "64 word"

fun generate :: "ExecutionClient \<Rightarrow> GeneratorCall \<Rightarrow> error + ExecutionClient" where
  "generate self (AccountStateCall b m r ts info) = generate_account_state self b m r ts info"
| "generate self (SubmittedCall s i k ts) = generate_order_submitted self s i k ts"
| "generate self (RejectedCall s i k reason ts) = generate_order_rejected self s i k reason ts"
| "generate self (AcceptedCall s i k v ts) = generate_order_accepted self s i k v ts"
| "generate self (PendingUpdateCall s i k v ts) = generate_order_pending_update self s i k v ts"
| "generate self (PendingCancelCall s i k v ts) = generate_order_pending_cancel self s i k v ts"
| "generate self (ModifyRejectedCall s i k v reason ts) =
     generate_order_modify_rejected self s i k v reason ts"
| "generate self (CancelRejectedCall s i k v reason ts) =
     generate_order_cancel_rejected self s i k v reason ts"
| "generate self (UpdatedCall s i k v q p tp ts modified) =
     generate_order_updated self s i k v q p tp ts modified"
| "generate self (CanceledCall s i k v ts) = generate_order_canceled self s i k v ts"
| "generate self (TriggeredCall s i k v ts) = generate_order_triggered self s i k v ts"
| "generate self (ExpiredCall s i k v ts) = generate_order_expired self s i k v ts"
| "generate self (FilledCall s i k v pos t side ty q p cur com liq ts) =
     generate_order_filled self s i k v pos t side ty q p cur com liq ts"

fun call_ts_event :: "GeneratorCall \<Rightarrow> 64 word" where
  "call_ts_event (AccountStateCall b m r ts info) = ts"
| "call_ts_event (SubmittedCall s i k ts) = ts"
| "call_ts_event (RejectedCall s i k reason ts) = ts"
| "call_ts_event (AcceptedCall s i k v ts) = ts"
| "call_ts_event (PendingUpdateCall s i k v ts) = ts"
| "call_ts_event (PendingCancelCall s i k v ts) = ts"
| "call_ts_event (ModifyRejectedCall s i k v reason ts) = ts"
| "call_ts_event (CancelRejectedCall s i k v reason ts) = ts"
| "call_ts_event (UpdatedCall s i k v q p tp ts modified) = ts"
| "call_ts_event (CanceledCall s i k v ts) = ts"
| "call_ts_event (TriggeredCall s i k v ts) = ts"
| "call_ts_event (ExpiredCall s i k v ts) = ts"
| "call_ts_event (FilledCall s i k v pos t side ty q p cur com liq ts) = ts"

fun run :: "ExecutionClient \<Rightarrow> GeneratorCall list \<Rightarrow> ExecutionClient" where
  "run self [] = self"
| "run self (c # cs) =
     (case generate self c of Inl e \<Rightarrow> run self cs | Inr self' \<Rightarrow> run self' cs)"

text \<open>What a message on the bus carries, for the events the generators build.\<close>

fun msg_event_id :: "Message \<Rightarrow> UUID4 option" where
  "msg_event_id (MsgAccountState a) = Some (as_event_id a)"
| "msg_event_id (MsgOrderEvent e) = Some (e_event_id e)"
| "msg_event_id (MsgMassStatus r) = None"
| "msg_event_id (MsgOrderStatusReport r) = None"
| "msg_event_id (MsgTradeReport r) = None"

fun msg_ts_event :: "Message \<Rightarrow> 64 word option" where
  "msg_ts_event (MsgAccountState a) = Some (as_ts_event a)"
| "msg_ts_event (MsgOrderEvent e) = Some (e_ts_event e)"
| "msg_ts_event (MsgMassStatus r) = None"
| "msg_ts_event (MsgOrderStatusReport r) = None"
| "msg_ts_event (MsgTradeReport r) = None"

fun msg_ts_init :: "Message \<Rightarrow> 64 word option" where
  "msg_ts_init (MsgAccountState a) = Some (as_ts_init a)"
| "msg_ts_init (MsgOrderEvent e) = Some (e_ts_init e)"
| "msg_ts_init (MsgMassStatus r) = None"
| "msg_ts_init (MsgOrderStatusReport r) = None"
| "msg_ts_init (MsgTradeReport r) = None"

fun msg_account_id :: "Message \<Rightarrow> AccountId option" where
  "msg_account_id (MsgAccountState a) = as_account_id a"
| "msg_account_id (MsgOrderEvent e) = e_account_id e"
| "msg_account_id (MsgMassStatus r) = None"
| "msg_account_id (MsgOrderStatusReport r) = None"
| "msg_account_id (MsgTradeReport r) = None"

definition event_ids :: "ExecutionClient \<Rightarrow> UUID4 list" where
  "event_ids self = List.map_filter (\<lambda>(endpoint, m). msg_event_id m) (sent (msgbus self))"

fun uuid_number :: "UUID4 \<Rightarrow> nat" where
  "uuid_number (UUID4 n) = n"

text \<open>Whether an event on the bus has \<^verbatim>\<open>ts_init >= ts_event\<close>.\<close>

definition ts_ordered :: "Message \<Rightarrow> bool" where
  "ts_ordered m =
     (case (msg_ts_event m, msg_ts_init m) of
        (Some e, Some i) \<Rightarrow> sint e \<le> uint i
      | _ \<Rightarrow> True)"

subsection \<open>A concrete client\<close>

text \<open>
  The client of scenario S5 of the spec: client ID \<^verbatim>\<open>SIM\<close>, a bus on which nothing has
  been sent, a clock that reads 0 and an empty cache.
\<close>

definition sim_bus :: MessageBus where
  "sim_bus = \<lparr> mb_trader_id = ''TRADER-001'', sent = [] \<rparr>"

definition sim_client :: ExecutionClient where
  "sim_client =
     \<lparr> component_id = ClientId ''SIM'',
       component_name = ''ExecClient-SIM'',
       config = [],
       cache = (\<lambda>k. None),
       clock = \<lparr> time_ns = 0 \<rparr>,
       msgbus = sim_bus,
       trader_id = ''TRADER-001'',
       venue = Some ''SIM'',
       oms_type = OMS_NETTING,
       account_id = None,
       account_type = AccountType 0,
       base_currency = Some ''USD'',
       is_connected = False,
       uuid_source = 0 \<rparr>"

section \<open>Message bus: wildcard matching\<close>

text \<open>
  Modelled from the spec: \<^verbatim>\<open>msgbus_is_matching(topic_ptr, pattern_ptr)\<close> is declared
  \<^verbatim>\<open>extern\<close> at line 479 of the generated declarations and its body is not among the
  source files. Spec 4.2: "glob-like, anchored full-string match against the topic.
  ? matches exactly one character. * matches zero or more characters. No other
  metacharacters. Matching is case-sensitive, byte-oriented."

  \<open>is_matching\<close> walks topic and pattern from the left: a \<^verbatim>\<open>*\<close> either matches nothing
  or takes one more character of the topic; a \<^verbatim>\<open>?\<close> takes exactly one character; any
  other character of the pattern takes itself.
\<close>

fun is_matching :: "string \<Rightarrow> string \<Rightarrow> bool" where
  "is_matching [] [] = True"
| "is_matching (t # ts) [] = False"
| "is_matching [] (p # ps) = (p = CHR ''*'' \<and> is_matching [] ps)"
| "is_matching (t # ts) (p # ps) =
     (if p = CHR ''*'' then is_matching (t # ts) ps \<or> is_matching ts (p # ps)
      else (p = CHR ''?'' \<or> p = t) \<and> is_matching ts ps)"

text \<open>The declared result is a \<^verbatim>\<open>uint8_t\<close>: 1 for a match, 0 otherwise.\<close>

definition msgbus_is_matching :: "string \<Rightarrow> string \<Rightarrow> 8 word" where
  "msgbus_is_matching topic pattern = (if is_matching topic pattern then 1 else 0)"

text \<open>
  The spec's words, as the set of topics a pattern stands for: the whole topic is split
  along the pattern, a \<^verbatim>\<open>*\<close> standing for any string (the empty one too), a \<^verbatim>\<open>?\<close> for
  any one character, any other character for itself.
\<close>

primrec topics_of :: "string \<Rightarrow> string set" where
  "topics_of [] = {[]}"
| "topics_of (p # ps) =
     (if p = CHR ''*'' then {w @ t | w t. t \<in> topics_of ps}
      else if p = CHR ''?'' then {c # t | c t. t \<in> topics_of ps}
      else {p # t | t. t \<in> topics_of ps})"

section \<open>Component lifecycle\<close>

text \<open>
  \<^verbatim>\<open>ComponentState\<close> and \<^verbatim>\<open>ComponentTrigger\<close>, lines 11-39 and 42-72 of the generated
  declarations.
\<close>

datatype ComponentState =
    PRE_INITIALIZED | READY | STARTING | RUNNING | STOPPING | STOPPED | RESUMING
  | RESETTING | DISPOSING | DISPOSED | DEGRADING | DEGRADED | FAULTING | FAULTED

datatype ComponentTrigger =
    INITIALIZE | START | START_COMPLETED | STOP | STOP_COMPLETED | RESUME
  | RESUME_COMPLETED | RESET | RESET_COMPLETED | DISPOSE | DISPOSE_COMPLETED | DEGRADE
  | DEGRADE_COMPLETED | FAULT | FAULT_COMPLETED

datatype component_error = InvalidStateTrigger ComponentState ComponentTrigger

definition all_states :: "ComponentState list" where
  "all_states =
     [PRE_INITIALIZED, READY, STARTING, RUNNING, STOPPING, STOPPED, RESUMING, RESETTING,
      DISPOSING, DISPOSED, DEGRADING, DEGRADED, FAULTING, FAULTED]"

text \<open>Spec 4.3: "Terminal states: DISPOSED, FAULTED."\<close>

definition terminal :: "ComponentState \<Rightarrow> bool" where
  "terminal s = (s = DISPOSED \<or> s = FAULTED)"

text \<open>
  Modelled from the spec: the transition function of a component is not among the source
  files (only the two enums are). This is the table of spec 4.3, row by row. A row
  "X / Y" stands for one row per state; "any" stands for every state and "any
  non-terminal" for every state but \<^verbatim>\<open>DISPOSED\<close> and \<^verbatim>\<open>FAULTED\<close>; a target written
  "DISPOSING -> DISPOSED" stands for the row to the transitional state and the row that
  the matching \<^verbatim>\<open>_COMPLETED\<close> trigger takes from there.
\<close>

definition transition_table :: "((ComponentState \<times> ComponentTrigger) \<times> ComponentState) list" where
  "transition_table =
     [((PRE_INITIALIZED, INITIALIZE), READY),
      ((READY, START), STARTING),
      ((STARTING, START_COMPLETED), RUNNING),
      ((RUNNING, STOP), STOPPING),
      ((STOPPING, STOP_COMPLETED), STOPPED),
      ((STOPPED, RESUME), RESUMING),
      ((RESUMING, RESUME_COMPLETED), RUNNING),
      ((STOPPED, RESET), RESETTING),
      ((DEGRADED, RESET), RESETTING),
      ((RESETTING, RESET_COMPLETED), READY)]
     @ map (\<lambda>s. ((s, DISPOSE), DISPOSING)) (filter (\<lambda>s. \<not> terminal s) all_states)
     @ [((DISPOSING, DISPOSE_COMPLETED), DISPOSED),
        ((RUNNING, DEGRADE), DEGRADING),
        ((DEGRADING, DEGRADE_COMPLETED), DEGRADED)]
     @ map (\<lambda>s. ((s, FAULT), FAULTING)) all_states
     @ [((FAULTING, FAULT_COMPLETED), FAULTED)]"

text \<open>
  Modelled from the spec: "a transition function mapping (state, trigger) -> state |
  error ... Any trigger not listed for the current state => error, state unchanged.
  Terminal states: DISPOSED, FAULTED." A terminal state is one that no trigger leaves, so
  the function refuses every trigger there before it consults the table, the row
  "any | FAULT" included.
\<close>

definition transition ::
  "ComponentState \<Rightarrow> ComponentTrigger \<Rightarrow> component_error + ComponentState" where
  "transition s t =
     (if terminal s then Inl (InvalidStateTrigger s t)
      else (case map_of transition_table (s, t) of
              None \<Rightarrow> Inl (InvalidStateTrigger s t)
            | Some s' \<Rightarrow> Inr s'))"

text \<open>
  A component receiving a trigger: its state afterwards, and the error raised if any.
\<close>

definition receive :: "ComponentState \<Rightarrow> ComponentTrigger \<Rightarrow> ComponentState \<times> component_error option" where
  "receive s t =
     (case transition s t of Inl e \<Rightarrow> (s, Some e) | Inr s' \<Rightarrow> (s', None))"

section \<open>TestClock\<close>

text \<open>
  Modelled from the spec: the functions \<^verbatim>\<open>test_clock_*\<close> are declared \<^verbatim>\<open>extern\<close> at
  lines 188-248 of the generated declarations and their bodies are not among the source
  files. Every time they take or return is a \<^verbatim>\<open>uint64_t\<close>. Spec 3 and 4.1: a timer has
  a name, \<^verbatim>\<open>interval_ns > 0\<close>, \<^verbatim>\<open>start_time_ns\<close> and \<^verbatim>\<open>stop_time_ns\<close> ("if
  stop_time_ns == 0 the timer is open-ended"); an alert is "a one-shot timer with
  alert_time_ns". The clock keeps its timers and alerts in the order they were
  registered.
\<close>

datatype TestTimer =
    Timer string "64 word" "64 word" "64 word"
  | TimeAlert string "64 word"

fun timer_name :: "TestTimer \<Rightarrow> string" where
  "timer_name (Timer name interval_ns start_time_ns stop_time_ns) = name"
| "timer_name (TimeAlert name alert_time_ns) = name"

record TestClock =
  tc_time_ns :: "64 word"
  tc_timers :: "TestTimer list"

text \<open>\<^verbatim>\<open>test_clock_timestamp_ns\<close>, line 205.\<close>

definition test_clock_timestamp_ns :: "TestClock \<Rightarrow> 64 word" where
  "test_clock_timestamp_ns tc = tc_time_ns tc"

text \<open>
  The firing times of a recurring timer from \<open>next\<close> up to \<open>limit\<close>, one interval apart:
  the loop of a timer that is advanced. The loop ends when the next firing time would
  not fit 64 bits: a firing time is a \<^verbatim>\<open>uint64_t\<close>, and the spec gives a timer no firing
  beyond that. A zero interval, which registration refuses, yields nothing.
\<close>

function due_times :: "64 word \<Rightarrow> 64 word \<Rightarrow> 64 word \<Rightarrow> 64 word list" where
  "due_times next interval_ns limit =
     (if interval_ns = 0 \<or> limit < next then []
      else next #
        (if unat next + unat interval_ns < 2 ^ 64
         then due_times (next + interval_ns) interval_ns limit
         else []))"
  by pat_completeness auto
termination
proof (relation "measure (\<lambda>(next, interval_ns, limit). Suc (unat limit) - unat next)")
  show "wf (measure (\<lambda>(next, interval_ns, limit). Suc (unat limit) - unat next))"
    by simp
next
  fix "next" interval_ns limit :: "64 word"
  assume a: "\<not> (interval_ns = 0 \<or> limit < next)"
    and b: "unat next + unat interval_ns < 2 ^ 64"
  from b have s: "unat (next + interval_ns) = unat next + unat interval_ns"
    by (simp add: unat_add_lem [THEN iffD1])
  from a have "0 < unat interval_ns" "unat next \<le> unat limit"
    by (simp_all add: unat_gt_0 word_less_nat_alt not_less)
  with s show "((next + interval_ns, interval_ns, limit), next, interval_ns, limit)
      \<in> measure (\<lambda>(next, interval_ns, limit). Suc (unat limit) - unat next)"
    by simp
qed

declare due_times.simps [simp del]

text \<open>
  Spec 4.1, \<^verbatim>\<open>advance_time\<close>: "every timer/alert firing in (current, to_ns] ... Recurring
  timers produce all due firings in the interval (may be many per call)". A firing is the
  name and the \<^verbatim>\<open>ts_event\<close> of the \<^verbatim>\<open>TimeEvent\<close> returned. A timer first fires one
  interval after its start (scenario S3) and, when it has a stop time, not after it. An
  alert fires at its alert time. Spec 4.1: "Times in the past for alerts => fire ... at
  the next advance_time boundary (test)": an alert whose time is not after the current
  time fires in the next call that advances the clock, at the time the clock is advanced
  to, which lies in the interval.
\<close>

type_synonym firing = "string \<times> 64 word"

fun firings :: "64 word \<Rightarrow> 64 word \<Rightarrow> TestTimer \<Rightarrow> firing list" where
  "firings now to_time_ns (TimeAlert name alert_time_ns) =
     (if now < alert_time_ns \<and> alert_time_ns \<le> to_time_ns then [(name, alert_time_ns)]
      else if alert_time_ns \<le> now \<and> now < to_time_ns then [(name, to_time_ns)]
      else [])"
| "firings now to_time_ns (Timer name interval_ns start_time_ns stop_time_ns) =
     (if unat start_time_ns + unat interval_ns < 2 ^ 64
      then map (\<lambda>t. (name, t))
             (filter (\<lambda>t. now < t)
                (due_times (start_time_ns + interval_ns) interval_ns
                   (if stop_time_ns = 0 then to_time_ns else min to_time_ns stop_time_ns)))
      else [])"

text \<open>Whether an alert fires in a call, at its alert time or late.\<close>

fun fired_alert :: "64 word \<Rightarrow> 64 word \<Rightarrow> TestTimer \<Rightarrow> bool" where
  "fired_alert now to_time_ns (TimeAlert name alert_time_ns) =
     (now < alert_time_ns \<and> alert_time_ns \<le> to_time_ns \<or>
      alert_time_ns \<le> now \<and> now < to_time_ns)"
| "fired_alert now to_time_ns (Timer name interval_ns start_time_ns stop_time_ns) = False"

text \<open>
  \<^verbatim>\<open>test_clock_advance_time\<close>, line 234; \<^verbatim>\<open>set_time\<close> is the 0 or 1 the declaration
  assumes. Spec 4.1: "returns, in strict ts_event ascending order (ties broken by
  registration order), every timer/alert firing in (current, to_ns]. If set_time is true,
  current time becomes to_ns afterwards; otherwise current time is unchanged. ... Alerts
  are removed upon firing." The firings are collected timer by timer in registration
  order and sorted by \<^verbatim>\<open>ts_event\<close> with insertion sort, which keeps equal keys in
  their order.
\<close>

definition test_clock_advance_time ::
  "TestClock \<Rightarrow> 64 word \<Rightarrow> bool \<Rightarrow> firing list \<times> TestClock" where
  "test_clock_advance_time tc to_time_ns set_time =
     (let now = tc_time_ns tc;
          events = sort_key snd (concat (map (firings now to_time_ns) (tc_timers tc)));
          remaining = filter (\<lambda>tm. \<not> fired_alert now to_time_ns tm) (tc_timers tc)
      in (events,
          \<lparr> tc_time_ns = (if set_time then to_time_ns else now), tc_timers = remaining \<rparr>))"

text \<open>
  The spec's words for when a registered timer or alert fires in a call that advances the
  clock from \<open>now\<close> to \<open>to_time_ns\<close>: an alert at its alert time, or at
  \<open>to_time_ns\<close> when its alert time is not after \<open>now\<close>; a timer at its start plus a
  positive number of intervals (as numbers, without wrap-around), up to its stop time if
  it has one.
\<close>

fun fires_at :: "64 word \<Rightarrow> 64 word \<Rightarrow> TestTimer \<Rightarrow> 64 word \<Rightarrow> bool" where
  "fires_at now to_time_ns (TimeAlert name alert_time_ns) t =
     (t = (if alert_time_ns \<le> now then to_time_ns else alert_time_ns))"
| "fires_at now to_time_ns (Timer name interval_ns start_time_ns stop_time_ns) t =
     ((\<exists>k. 1 \<le> k \<and> unat t = unat start_time_ns + k * unat interval_ns) \<and>
      (stop_time_ns = 0 \<or> t \<le> stop_time_ns))"

fun positive_interval :: "TestTimer \<Rightarrow> bool" where
  "positive_interval (TimeAlert name alert_time_ns) = True"
| "positive_interval (Timer name interval_ns start_time_ns stop_time_ns) = (interval_ns \<noteq> 0)"

text \<open>
  What registration establishes of a clock. Spec 3: "interval_ns > 0 ... One timer per
  name; re-registration under an existing name is an error. ... Alerts share the
  name-space of timers."
\<close>

definition registered :: "TestClock \<Rightarrow> bool" where
  "registered tc =
     (distinct (map timer_name (tc_timers tc)) \<and> list_all positive_interval (tc_timers tc))"

text \<open>
  The clock of scenario S3 of the spec: an alert at 1 000 000 000 registered first, then a
  timer of interval 250 000 000 starting at 0 with no stop time. And a clock at time 10
  holding an alert for time 5.
\<close>

definition s3_clock :: TestClock where
  "s3_clock = \<lparr> tc_time_ns = 0,
       tc_timers = [TimeAlert ''alert'' 1000000000, Timer ''timer'' 250000000 0 0] \<rparr>"

definition late_alert_clock :: TestClock where
  "late_alert_clock = \<lparr> tc_time_ns = 10, tc_timers = [TimeAlert ''late'' 5] \<rparr>"

section \<open>Properties of the execution client\<close>

lemmas generator_defs = generate_account_state_def generate_order_submitted_def
  generate_order_rejected_def generate_order_accepted_def generate_order_pending_update_def
  generate_order_pending_cancel_def generate_order_modify_rejected_def
  generate_order_cancel_rejected_def generate_order_updated_def generate_order_canceled_def
  generate_order_triggered_def generate_order_expired_def generate_order_filled_def

lemmas send_defs = send_account_state_def send_order_event_def send_mass_status_report_def
  send_order_status_report_def send_trade_report_def send_def

lemmas check_defs = Condition_not_none_def Condition_equal_def Condition_not_equal_def
  arg_not_none_def

lemma generate_result:
  assumes "generate c call = Inr c'"
  shows "\<exists>ep m. sent (msgbus c') = sent (msgbus c) @ [(ep, m)] \<and>
           msg_event_id m = Some (UUID4 (uuid_source c)) \<and>
           msg_ts_event m = Some (call_ts_event call) \<and>
           msg_ts_init m = Some (timestamp_ns (clock c)) \<and>
           msg_account_id m = account_id c \<and>
           uuid_source c' = Suc (uuid_source c)"
  using assms
  by (cases call)
     (auto simp: generator_defs send_defs check_defs UUID4_new_def
           split: option.splits sum.splits if_splits)

text \<open>
  C2. Each event generator that returns has sent exactly one message, to one fixed
  endpoint: \<^verbatim>\<open>generate_account_state\<close> an \<^verbatim>\<open>AccountState\<close> to
  \<^verbatim>\<open>Portfolio.update_account\<close>; each of the twelve order event generators its event to
  \<^verbatim>\<open>ExecEngine.process\<close>. Ten of the twelve always return. \<^verbatim>\<open>generate_order_updated\<close>
  returns, having sent its \<^verbatim>\<open>OrderUpdated\<close> event, exactly when both IDs are given and
  \<^verbatim>\<open>venue_order_id_modified\<close> is true or the cache maps the client order ID to the venue
  order ID, and raises otherwise; \<^verbatim>\<open>generate_order_filled\<close> returns, having sent its
  \<^verbatim>\<open>OrderFilled\<close> event, exactly when the instrument ID is given, and raises otherwise.
  An \<^verbatim>\<open>ExecutionMassStatus\<close> goes to \<^verbatim>\<open>ExecEngine.reconcile_mass_status\<close>, an
  \<^verbatim>\<open>OrderStatusReport\<close> and a \<^verbatim>\<open>TradeReport\<close> to \<^verbatim>\<open>ExecEngine.reconcile_report\<close>.
\<close>

theorem event_routing:
  "(\<exists>c' a. generate_account_state c b mg rep ts info = Inr c' \<and>
       sent (msgbus c') = sent (msgbus c) @ [(''Portfolio.update_account'', MsgAccountState a)])
   \<and> (\<exists>c' ev. generate_order_submitted c s i k ts = Inr c' \<and> e_payload ev = OrderSubmitted \<and>
       sent (msgbus c') = sent (msgbus c) @ [(''ExecEngine.process'', MsgOrderEvent ev)])
   \<and> (\<exists>c' ev. generate_order_rejected c s i k reason ts = Inr c' \<and> e_payload ev = OrderRejected reason \<and>
       sent (msgbus c') = sent (msgbus c) @ [(''ExecEngine.process'', MsgOrderEvent ev)])
   \<and> (\<exists>c' ev. generate_order_accepted c s i k v ts = Inr c' \<and> e_payload ev = OrderAccepted v \<and>
       sent (msgbus c') = sent (msgbus c) @ [(''ExecEngine.process'', MsgOrderEvent ev)])
   \<and> (\<exists>c' ev. generate_order_pending_update c s i k v ts = Inr c' \<and> e_payload ev = OrderPendingUpdate v \<and>
       sent (msgbus c') = sent (msgbus c) @ [(''ExecEngine.process'', MsgOrderEvent ev)])
   \<and> (\<exists>c' ev. generate_order_pending_cancel c s i k v ts = Inr c' \<and> e_payload ev = OrderPendingCancel v \<and>
       sent (msgbus c') = sent (msgbus c) @ [(''ExecEngine.process'', MsgOrderEvent ev)])
   \<and> (\<exists>c' ev. generate_order_modify_rejected c s i k v reason ts = Inr c' \<and>
       e_payload ev = OrderModifyRejected v reason \<and>
       sent (msgbus c') = sent (msgbus c) @ [(''ExecEngine.process'', MsgOrderEvent ev)])
   \<and> (\<exists>c' ev. generate_order_cancel_rejected c s i k v reason ts = Inr c' \<and>
       e_payload ev = OrderCancelRejected v reason \<and>
       sent (msgbus c') = sent (msgbus c) @ [(''ExecEngine.process'', MsgOrderEvent ev)])
   \<and> ((\<exists>c' ev. generate_order_updated c s i k v q p tp ts modified = Inr c' \<and>
          e_payload ev = OrderUpdated v q p tp \<and>
          sent (msgbus c') = sent (msgbus c) @ [(''ExecEngine.process'', MsgOrderEvent ev)])
        = (\<exists>coid void. k = Some coid \<and> v = Some void \<and>
             (modified \<or> venue_order_id (cache c) coid = Some void)))
   \<and> ((\<exists>e. generate_order_updated c s i k v q p tp ts modified = Inl e)
        = (k = None \<or> v = None \<or>
           (\<exists>coid void. k = Some coid \<and> v = Some void \<and> \<not> modified \<and>
              venue_order_id (cache c) coid \<noteq> Some void)))
   \<and> (\<exists>c' ev. generate_order_canceled c s i k v ts = Inr c' \<and> e_payload ev = OrderCanceled v \<and>
       sent (msgbus c') = sent (msgbus c) @ [(''ExecEngine.process'', MsgOrderEvent ev)])
   \<and> (\<exists>c' ev. generate_order_triggered c s i k v ts = Inr c' \<and> e_payload ev = OrderTriggered v \<and>
       sent (msgbus c') = sent (msgbus c) @ [(''ExecEngine.process'', MsgOrderEvent ev)])
   \<and> (\<exists>c' ev. generate_order_expired c s i k v ts = Inr c' \<and> e_payload ev = OrderExpired v \<and>
       sent (msgbus c') = sent (msgbus c) @ [(''ExecEngine.process'', MsgOrderEvent ev)])
   \<and> ((\<exists>c' ev. generate_order_filled c s i k v pos t side ty lq lp cur com liq ts = Inr c' \<and>
          e_payload ev = OrderFilled v t pos side ty lq lp cur com liq \<and>
          sent (msgbus c') = sent (msgbus c) @ [(''ExecEngine.process'', MsgOrderEvent ev)])
        = (i \<noteq> None))
   \<and> ((\<exists>e. generate_order_filled c s i k v pos t side ty lq lp cur com liq ts = Inl e)
        = (i = None))
   \<and> sent (msgbus (send_mass_status_report c mass_status)) =
        sent (msgbus c) @ [(''ExecEngine.reconcile_mass_status'', MsgMassStatus mass_status)]
   \<and> sent (msgbus (send_order_status_report c order_report)) =
        sent (msgbus c) @ [(''ExecEngine.reconcile_report'', MsgOrderStatusReport order_report)]
   \<and> sent (msgbus (send_trade_report c trade_report)) =
        sent (msgbus c) @ [(''ExecEngine.reconcile_report'', MsgTradeReport trade_report)]"
proof -
  have upd_ok: "(\<exists>c' ev. generate_order_updated c s i k v q p tp ts modified = Inr c' \<and>
          e_payload ev = OrderUpdated v q p tp \<and>
          sent (msgbus c') = sent (msgbus c) @ [(''ExecEngine.process'', MsgOrderEvent ev)])
        = (\<exists>coid void. k = Some coid \<and> v = Some void \<and>
             (modified \<or> venue_order_id (cache c) coid = Some void))"
    by (cases k; cases v)
       (auto simp: generate_order_updated_def send_defs check_defs UUID4_new_def)
  have upd_raise: "(\<exists>e. generate_order_updated c s i k v q p tp ts modified = Inl e)
        = (k = None \<or> v = None \<or>
           (\<exists>coid void. k = Some coid \<and> v = Some void \<and> \<not> modified \<and>
              venue_order_id (cache c) coid \<noteq> Some void))"
    by (cases k; cases v)
       (auto simp: generate_order_updated_def send_defs check_defs UUID4_new_def)
  have fill_ok: "(\<exists>c' ev. generate_order_filled c s i k v pos t side ty lq lp cur com liq ts = Inr c' \<and>
          e_payload ev = OrderFilled v t pos side ty lq lp cur com liq \<and>
          sent (msgbus c') = sent (msgbus c) @ [(''ExecEngine.process'', MsgOrderEvent ev)])
        = (i \<noteq> None)"
    by (cases i) (auto simp: generate_order_filled_def send_defs check_defs UUID4_new_def)
  have fill_raise: "(\<exists>e. generate_order_filled c s i k v pos t side ty lq lp cur com liq ts = Inl e)
        = (i = None)"
    by (cases i) (auto simp: generate_order_filled_def send_defs check_defs UUID4_new_def)
  show ?thesis
    unfolding upd_ok upd_raise fill_ok fill_raise
    by (simp add: generator_defs send_defs check_defs UUID4_new_def)
qed

theorem event_routing_witness:
  "(\<exists>c' a. generate_account_state sim_client (Some []) (Some []) True 0 None = Inr c' \<and>
       sent (msgbus c') = [(''Portfolio.update_account'', MsgAccountState a)])
   \<and> (\<exists>c' ev. generate_order_updated (sim_client\<lparr>cache := [''O-1'' \<mapsto> ''V-1'']\<rparr>)
         (Some ''S-001'') (Some ''AUD/USD.SIM'') (Some ''O-1'') (Some ''V-1'') None None None 0 False
         = Inr c' \<and>
       e_payload ev = OrderUpdated (Some ''V-1'') None None None \<and>
       sent (msgbus c') = [(''ExecEngine.process'', MsgOrderEvent ev)])
   \<and> (\<exists>c' ev. generate_order_filled sim_client (Some ''S-001'') (Some ''AUD/USD.SIM'') (Some ''O-1'')
         (Some ''V-1'') None (Some ''T-1'') BUY (OrderType 0) (Some (Quantity 100)) (Some (Price 100))
         (Some ''USD'') (Some (Money 2 ''USD'')) TAKER 0 = Inr c' \<and>
       e_payload ev = OrderFilled (Some ''V-1'') (Some ''T-1'') None BUY (OrderType 0)
         (Some (Quantity 100)) (Some (Price 100)) (Some ''USD'') (Some (Money 2 ''USD'')) TAKER \<and>
       sent (msgbus c') = [(''ExecEngine.process'', MsgOrderEvent ev)])"
proof -
  have empty: "sent (msgbus sim_client) = []"
    "sent (msgbus (sim_client\<lparr>cache := [''O-1'' \<mapsto> ''V-1'']\<rparr>)) = []"
    by (simp_all add: sim_client_def sim_bus_def)
  have cached: "\<exists>coid void. Some ''O-1'' = Some coid \<and> Some ''V-1'' = Some void \<and>
      (False \<or> venue_order_id (cache (sim_client\<lparr>cache := [''O-1'' \<mapsto> ''V-1'']\<rparr>)) coid = Some void)"
    by (simp add: venue_order_id_def)
  have instrument: "Some ''AUD/USD.SIM'' \<noteq> None"
    by simp
  note r = event_routing [where c = sim_client and b = "Some []" and mg = "Some []" and rep = True
      and ts = 0 and info = None and s = "Some ''S-001''" and i = "Some ''AUD/USD.SIM''"
      and k = "Some ''O-1''" and v = "Some ''V-1''" and pos = None and t = "Some ''T-1''"
      and side = BUY and ty = "OrderType 0" and lq = "Some (Quantity 100)" and lp = "Some (Price 100)"
      and cur = "Some ''USD''" and com = "Some (Money 2 ''USD'')" and liq = TAKER, unfolded empty]
  note u = event_routing [where c = "sim_client\<lparr>cache := [''O-1'' \<mapsto> ''V-1'']\<rparr>"
      and s = "Some ''S-001''" and i = "Some ''AUD/USD.SIM''" and k = "Some ''O-1''"
      and v = "Some ''V-1''" and q = None and p = None and tp = None and ts = 0
      and modified = False, unfolded empty]
  note a = r [THEN conjunct1]
  note upd = u [THEN conjunct2, THEN conjunct2, THEN conjunct2, THEN conjunct2, THEN conjunct2,
      THEN conjunct2, THEN conjunct2, THEN conjunct2, THEN conjunct1, THEN iffD2, OF cached]
  note fill = r [THEN conjunct2, THEN conjunct2, THEN conjunct2, THEN conjunct2, THEN conjunct2,
      THEN conjunct2, THEN conjunct2, THEN conjunct2, THEN conjunct2, THEN conjunct2,
      THEN conjunct2, THEN conjunct2, THEN conjunct2, THEN conjunct1, THEN iffD2, OF instrument]
  from a upd fill show ?thesis by simp
qed

subsection \<open>Event IDs and timestamps\<close>

lemma event_ids_append:
  "sent (msgbus c') = sent (msgbus c) @ [(ep, m)] \<Longrightarrow> msg_event_id m = Some u \<Longrightarrow>
   event_ids c' = event_ids c @ [u]"
  by (simp add: event_ids_def List.map_filter_def)

lemma generate_keeps_fresh:
  assumes "generate c call = Inr c'"
    and "\<forall>u \<in> set (event_ids c). uuid_number u < uuid_source c"
    and "distinct (event_ids c)"
  shows "(\<forall>u \<in> set (event_ids c'). uuid_number u < uuid_source c') \<and> distinct (event_ids c')"
proof -
  from generate_result [OF assms(1)] obtain ep m where
    s: "sent (msgbus c') = sent (msgbus c) @ [(ep, m)]" and
    i: "msg_event_id m = Some (UUID4 (uuid_source c))" and
    u: "uuid_source c' = Suc (uuid_source c)"
    by blast
  have e: "event_ids c' = event_ids c @ [UUID4 (uuid_source c)]"
    by (rule event_ids_append [OF s i])
  from assms(2) have "UUID4 (uuid_source c) \<notin> set (event_ids c)" by fastforce
  with assms(2,3) e u show ?thesis by (auto simp: less_Suc_eq)
qed

lemma run_keeps_fresh:
  "(\<forall>u \<in> set (event_ids c). uuid_number u < uuid_source c) \<Longrightarrow> distinct (event_ids c) \<Longrightarrow>
   (\<forall>u \<in> set (event_ids (run c calls)). uuid_number u < uuid_source (run c calls)) \<and>
   distinct (event_ids (run c calls))"
proof (induction calls arbitrary: c)
  case Nil
  then show ?case by simp
next
  case (Cons call calls)
  show ?case
  proof (cases "generate c call")
    case (Inl e)
    with Cons show ?thesis by simp
  next
    case (Inr c')
    from generate_keeps_fresh [OF Inr Cons.prems] Cons.IH [of c'] Inr show ?thesis by simp
  qed
qed

text \<open>
  C3. (as amended) Every event a generator emits carries the next event ID of the
  UUID4 source, which the call advances; \<^verbatim>\<open>ts_event\<close> as the caller gave it; and
  \<^verbatim>\<open>ts_init\<close> as the clock reads at the call. Whether \<^verbatim>\<open>ts_init >= ts_event\<close> holds
  is decided by the caller's \<^verbatim>\<open>ts_event\<close> and the clock alone: no generator compares
  them. In a run that starts with event IDs below the source and distinct (as on a bus
  on which nothing has been sent), the event IDs stay distinct.
\<close>

theorem generated_event_stamps:
  "(generate c call = Inr c' \<longrightarrow>
      (\<exists>ep m. sent (msgbus c') = sent (msgbus c) @ [(ep, m)] \<and>
         msg_event_id m = Some (UUID4 (uuid_source c)) \<and>
         uuid_source c' = Suc (uuid_source c) \<and>
         msg_ts_event m = Some (call_ts_event call) \<and>
         msg_ts_init m = Some (timestamp_ns (clock c)) \<and>
         ts_ordered m = (sint (call_ts_event call) \<le> uint (timestamp_ns (clock c)))))
   \<and> ((\<forall>u \<in> set (event_ids c). uuid_number u < uuid_source c) \<and> distinct (event_ids c) \<longrightarrow>
        distinct (event_ids (run c calls)))"
proof -
  have one: "\<exists>ep m. sent (msgbus c') = sent (msgbus c) @ [(ep, m)] \<and>
         msg_event_id m = Some (UUID4 (uuid_source c)) \<and>
         uuid_source c' = Suc (uuid_source c) \<and>
         msg_ts_event m = Some (call_ts_event call) \<and>
         msg_ts_init m = Some (timestamp_ns (clock c)) \<and>
         ts_ordered m = (sint (call_ts_event call) \<le> uint (timestamp_ns (clock c)))"
    if "generate c call = Inr c'"
    using generate_result [OF that] by (auto simp: ts_ordered_def)
  from one run_keeps_fresh [of c calls] show ?thesis by blast
qed

theorem generated_event_stamps_witness:
  "(\<exists>c'. generate sim_client (SubmittedCall (Some ''S-001'') (Some ''AUD/USD.SIM'') (Some ''O-1'') 5) = Inr c' \<and>
      (\<exists>ep m. sent (msgbus c') = sent (msgbus sim_client) @ [(ep, m)] \<and>
         msg_event_id m = Some (UUID4 0) \<and> msg_ts_event m = Some 5 \<and> msg_ts_init m = Some 0 \<and>
         \<not> ts_ordered m))
   \<and> distinct (event_ids (run sim_client
        [SubmittedCall (Some ''S-001'') (Some ''AUD/USD.SIM'') (Some ''O-1'') 5,
         AcceptedCall (Some ''S-001'') (Some ''AUD/USD.SIM'') (Some ''O-1'') (Some ''V-1'') 6,
         AcceptedCall (Some ''S-001'') (Some ''AUD/USD.SIM'') (Some ''O-1'') (Some ''V-1'') 6]))"
proof -
  obtain c' where gen: "generate sim_client
      (SubmittedCall (Some ''S-001'') (Some ''AUD/USD.SIM'') (Some ''O-1'') 5) = Inr c'"
    by (simp add: generate_order_submitted_def UUID4_new_def)
  have start: "(\<forall>u \<in> set (event_ids sim_client). uuid_number u < uuid_source sim_client) \<and>
      distinct (event_ids sim_client)"
    by (simp add: event_ids_def sim_client_def sim_bus_def List.map_filter_def)
  have src: "uuid_source sim_client = 0" and clk: "timestamp_ns (clock sim_client) = 0"
    by (simp_all add: sim_client_def timestamp_ns_def)
  from generated_event_stamps [where c = sim_client and c' = c'
      and call = "SubmittedCall (Some ''S-001'') (Some ''AUD/USD.SIM'') (Some ''O-1'') 5"
      and calls = "[SubmittedCall (Some ''S-001'') (Some ''AUD/USD.SIM'') (Some ''O-1'') 5,
         AcceptedCall (Some ''S-001'') (Some ''AUD/USD.SIM'') (Some ''O-1'') (Some ''V-1'') 6,
         AcceptedCall (Some ''S-001'') (Some ''AUD/USD.SIM'') (Some ''O-1'') (Some ''V-1'') 6]"]
    gen start src clk
  show ?thesis by auto
qed

text \<open>
  C3. as stated fails: with the clock at 0, \<^verbatim>\<open>generate_order_submitted\<close> called with
  \<^verbatim>\<open>ts_event = 1\<close> emits an event whose \<^verbatim>\<open>ts_init\<close> is 0 and whose \<^verbatim>\<open>ts_event\<close> is 1.
\<close>

theorem ts_init_before_ts_event_counterexample:
  "(case generate_order_submitted sim_client (Some ''S-001'') (Some ''AUD/USD.SIM'') (Some ''O-1'') 1 of
      Inl e \<Rightarrow> False
    | Inr c' \<Rightarrow>
        map (\<lambda>(ep, m). (map_option sint (msg_ts_event m), map_option uint (msg_ts_init m)))
          (sent (msgbus c')) = [(Some 1, Some 0)])"
  by (simp add: generate_order_submitted_def UUID4_new_def send_defs sim_client_def sim_bus_def
      timestamp_ns_def)

subsection \<open>The type of a timestamp\<close>

lemma sint_word_of_int_64:
  "- (2 ^ 63) \<le> n \<Longrightarrow> n < 2 ^ 63 \<Longrightarrow> sint (word_of_int n :: 64 word) = n"
  by (simp add: sint_sbintrunc' signed_take_bit_int_eq_self)

lemma uint_word_of_int_64:
  "0 \<le> n \<Longrightarrow> n < 2 ^ 64 \<Longrightarrow> uint (word_of_int n :: 64 word) = n"
  by (simp add: uint_word_of_int take_bit_int_eq_self)

text \<open>
  C9. (as amended) The \<^verbatim>\<open>ts_event\<close> an event generator accepts is a signed 64-bit
  integer: a Python integer is accepted exactly when it lies in \<open>-2^63 .. 2^63 - 1\<close>, the
  emitted event then carries that value, and any other value raises \<^verbatim>\<open>OverflowError\<close>
  before the generator runs. The timestamps of \<^verbatim>\<open>TimeEvent_t\<close> and the reading of a clock
  are unsigned 64-bit: exactly the integers \<open>0 .. 2^64 - 1\<close>.
\<close>

theorem timestamp_types:
  "((\<exists>w. int64_t_of_py n = Inr w) = (- (2 ^ 63) \<le> n \<and> n < 2 ^ 63))
   \<and> (int64_t_of_py n = Inr w \<longrightarrow> sint w = n)
   \<and> (\<not> (- (2 ^ 63) \<le> n \<and> n < 2 ^ 63) \<longrightarrow> py_ts_event n generator = Inl (OverflowError ''int64_t''))
   \<and> ((\<forall>ts. call_ts_event (mk ts) = ts) \<and> py_ts_event n (\<lambda>ts. generate c (mk ts)) = Inr c' \<longrightarrow>
        - (2 ^ 63) \<le> n \<and> n < 2 ^ 63 \<and>
        (\<exists>ep m. sent (msgbus c') = sent (msgbus c) @ [(ep, m)] \<and>
           map_option sint (msg_ts_event m) = Some n))
   \<and> ((\<exists>w. uint64_t_of_py k = Inr w) = (0 \<le> k \<and> k < 2 ^ 64))
   \<and> (uint64_t_of_py k = Inr w' \<longrightarrow> uint w' = k)
   \<and> te_ts_event (time_event_new name event_id a b) = a
   \<and> te_ts_init (time_event_new name event_id a b) = b
   \<and> 0 \<le> uint a \<and> uint a < 2 ^ 64 \<and> 0 \<le> uint (timestamp_ns clk) \<and> uint (timestamp_ns clk) < 2 ^ 64"
proof -
  have a1: "(\<exists>w. int64_t_of_py n = Inr w) = (- (2 ^ 63) \<le> n \<and> n < 2 ^ 63)"
    by (simp add: int64_t_of_py_def)
  have a2: "sint w = n" if "int64_t_of_py n = Inr w"
    using that by (auto simp: int64_t_of_py_def sint_word_of_int_64 split: if_splits)
  have a3: "py_ts_event n generator = Inl (OverflowError ''int64_t'')"
    if "\<not> (- (2 ^ 63) \<le> n \<and> n < 2 ^ 63)"
    using that by (auto simp: py_ts_event_def int64_t_of_py_def)
  have a4: "- (2 ^ 63) \<le> n \<and> n < 2 ^ 63 \<and>
        (\<exists>ep m. sent (msgbus c') = sent (msgbus c) @ [(ep, m)] \<and>
           map_option sint (msg_ts_event m) = Some n)"
    if h: "(\<forall>ts. call_ts_event (mk ts) = ts) \<and> py_ts_event n (\<lambda>ts. generate c (mk ts)) = Inr c'"
  proof -
    from h obtain ts where c: "int64_t_of_py n = Inr ts" and g: "generate c (mk ts) = Inr c'"
      by (auto simp: py_ts_event_def split: sum.splits)
    from c have r: "- (2 ^ 63) \<le> n \<and> n < 2 ^ 63" using a1 by blast
    from c have "sint ts = n"
      by (auto simp: int64_t_of_py_def sint_word_of_int_64 split: if_splits)
    with generate_result [OF g] h r show ?thesis by auto
  qed
  have b1: "(\<exists>w. uint64_t_of_py k = Inr w) = (0 \<le> k \<and> k < 2 ^ 64)"
    by (simp add: uint64_t_of_py_def)
  have b2: "uint w' = k" if "uint64_t_of_py k = Inr w'"
    using that by (auto simp: uint64_t_of_py_def uint_word_of_int_64 split: if_splits)
  have b3: "te_ts_event (time_event_new name event_id a b) = a"
    "te_ts_init (time_event_new name event_id a b) = b"
    by (simp_all add: time_event_new_def)
  have b4: "0 \<le> uint a \<and> uint a < 2 ^ 64 \<and> 0 \<le> uint (timestamp_ns clk) \<and> uint (timestamp_ns clk) < 2 ^ 64"
    using uint_bounded [of a] uint_bounded [of "timestamp_ns clk"] by simp
  from a1 a2 a3 a4 b1 b2 b3 b4 show ?thesis by blast
qed

theorem timestamp_types_witness:
  "int64_t_of_py (- 1) = Inr (- 1) \<and> sint (- 1 :: 64 word) = - 1
   \<and> py_ts_event (2 ^ 63)
        (generate_order_submitted sim_client (Some ''S-001'') (Some ''AUD/USD.SIM'') (Some ''O-1''))
        = Inl (OverflowError ''int64_t'')
   \<and> (\<exists>c'. py_ts_event (- 1)
          (\<lambda>ts. generate sim_client
             (SubmittedCall (Some ''S-001'') (Some ''AUD/USD.SIM'') (Some ''O-1'') ts)) = Inr c' \<and>
        (\<exists>ep m. sent (msgbus c') = sent (msgbus sim_client) @ [(ep, m)] \<and>
           map_option sint (msg_ts_event m) = Some (- 1)))
   \<and> uint64_t_of_py 5 = Inr 5 \<and> uint (5 :: 64 word) = 5"
proof -
  have conv: "int64_t_of_py (- 1) = Inr (- 1)"
    by (simp add: int64_t_of_py_def)
  have out: "\<not> (- (2 ^ 63) \<le> (2 ^ 63 :: int) \<and> (2 ^ 63 :: int) < 2 ^ 63)"
    by simp
  have mk: "\<forall>ts. call_ts_event
      (SubmittedCall (Some ''S-001'') (Some ''AUD/USD.SIM'') (Some ''O-1'') ts) = ts"
    by simp
  obtain c' where gen: "py_ts_event (- 1)
      (\<lambda>ts. generate sim_client
         (SubmittedCall (Some ''S-001'') (Some ''AUD/USD.SIM'') (Some ''O-1'') ts)) = Inr c'"
    by (simp add: py_ts_event_def conv generate_order_submitted_def UUID4_new_def)
  have uconv: "uint64_t_of_py 5 = Inr 5"
    by (simp add: uint64_t_of_py_def)
  from timestamp_types [where n = "- 1" and w = "- 1" and c = sim_client and c' = c'
      and mk = "SubmittedCall (Some ''S-001'') (Some ''AUD/USD.SIM'') (Some ''O-1'')"
      and k = 5 and w' = 5]
    timestamp_types [where n = "2 ^ 63"
      and generator = "generate_order_submitted sim_client (Some ''S-001'') (Some ''AUD/USD.SIM'')
        (Some ''O-1'')"]
    conv out mk gen uconv
  show ?thesis by auto
qed

text \<open>
  C9. as stated fails: \<^verbatim>\<open>generate_order_submitted\<close> accepts \<^verbatim>\<open>ts_event = -1\<close> and emits
  it, and refuses \<^verbatim>\<open>ts_event = 2^64 - 1\<close>, the largest unsigned 64-bit value.
\<close>

theorem signed_ts_event_counterexample:
  "(case py_ts_event (- 1)
      (generate_order_submitted sim_client (Some ''S-001'') (Some ''AUD/USD.SIM'') (Some ''O-1'')) of
      Inl e \<Rightarrow> False
    | Inr c' \<Rightarrow>
        map (\<lambda>(ep, m). map_option sint (msg_ts_event m)) (sent (msgbus c')) = [Some (- 1)])
   \<and> py_ts_event (2 ^ 64 - 1)
        (generate_order_submitted sim_client (Some ''S-001'') (Some ''AUD/USD.SIM'') (Some ''O-1''))
        = Inl (OverflowError ''int64_t'')"
  by (simp add: py_ts_event_def int64_t_of_py_def generate_order_submitted_def UUID4_new_def
      send_defs sim_client_def sim_bus_def)

subsection \<open>The account ID\<close>

text \<open>
  C7. (as amended) \<^verbatim>\<open>_set_account_id\<close> raises when the account ID is \<^verbatim>\<open>None\<close> or
  when its issuer differs from the value of the client ID; otherwise it stores the account
  ID, whatever account ID the client held before.
\<close>

theorem set_account_id_checks:
  "set_account_id c None = Inl (ConditionFailed NotNone ''account_id'')
   \<and> (issuer a \<noteq> cid_value (component_id c) \<longrightarrow>
        set_account_id c (Some a) = Inl (ConditionFailed Equal ''id.value''))
   \<and> (issuer a = cid_value (component_id c) \<longrightarrow>
        set_account_id c (Some a) = Inr (c\<lparr>account_id := Some a\<rparr>))"
  by (simp add: set_account_id_def check_defs)

theorem set_account_id_checks_witness:
  "set_account_id sim_client None = Inl (ConditionFailed NotNone ''account_id'')
   \<and> set_account_id sim_client (Some (AccountId ''IB-001'')) = Inl (ConditionFailed Equal ''id.value'')
   \<and> set_account_id sim_client (Some (AccountId ''SIM-001''))
        = Inr (sim_client\<lparr>account_id := Some (AccountId ''SIM-001'')\<rparr>)"
  using set_account_id_checks [where c = sim_client and a = "AccountId ''IB-001''"]
    set_account_id_checks [where c = sim_client and a = "AccountId ''SIM-001''"]
  by (simp add: issuer_def sim_client_def)

text \<open>
  C7. as stated fails: a second assignment is permitted. On the client \<^verbatim>\<open>SIM\<close>,
  \<^verbatim>\<open>_set_account_id\<close> of \<^verbatim>\<open>SIM-001\<close> and then of \<^verbatim>\<open>SIM-002\<close> both return, and the
  client ends with \<^verbatim>\<open>SIM-002\<close>.
\<close>

theorem set_account_id_twice_counterexample:
  "(case set_account_id sim_client (Some (AccountId ''SIM-001'')) of
      Inl e \<Rightarrow> False
    | Inr c \<Rightarrow> account_id c = Some (AccountId ''SIM-001'') \<and>
        (case set_account_id c (Some (AccountId ''SIM-002'')) of
           Inl e \<Rightarrow> False
         | Inr c' \<Rightarrow> account_id c' = Some (AccountId ''SIM-002'')))"
  by (simp add: set_account_id_def check_defs issuer_def sim_client_def)

subsection \<open>Construction\<close>

text \<open>
  C8. The constructor raises whenever \<^verbatim>\<open>oms_type\<close> is \<^verbatim>\<open>NONE\<close>; with the
  \<^verbatim>\<open>not None\<close> arguments present the error is the failed \<^verbatim>\<open>Condition.not_equal\<close> on
  \<^verbatim>\<open>oms_type\<close>. For every other \<^verbatim>\<open>oms_type\<close>, with those arguments present, construction
  returns a client that holds the bus as it was given: nothing is sent.
\<close>

theorem init_oms_type_check:
  "(\<exists>e. ExecutionClient_init client_id ven OMS_NONE acct cur bus cch clk lg cfg uuids = Inl e)
   \<and> ExecutionClient_init (Some cid) ven OMS_NONE acct cur (Some mb) (Some ca) (Some cl) (Some lgr)
        cfg uuids = Inl (ConditionFailed NotEqual ''oms_type'')
   \<and> (oms \<noteq> OMS_NONE \<longrightarrow>
        (\<exists>c. ExecutionClient_init (Some cid) ven oms acct cur (Some mb) (Some ca) (Some cl) (Some lgr)
               cfg uuids = Inr c \<and>
             oms_type c = oms \<and> component_id c = cid \<and> msgbus c = mb \<and> uuid_source c = uuids))"
  by (simp add: ExecutionClient_init_def check_defs split: option.splits)

theorem init_oms_type_check_witness:
  "ExecutionClient_init (Some (ClientId ''SIM'')) (Some ''SIM'') OMS_NONE (AccountType 0) (Some ''USD'')
       (Some sim_bus) (Some (\<lambda>k. None)) (Some \<lparr>time_ns = 0\<rparr>) (Some Logger) None 0
     = Inl (ConditionFailed NotEqual ''oms_type'')
   \<and> (\<exists>c. ExecutionClient_init (Some (ClientId ''SIM'')) (Some ''SIM'') OMS_NETTING (AccountType 0) (Some ''USD'')
       (Some sim_bus) (Some (\<lambda>k. None)) (Some \<lparr>time_ns = 0\<rparr>) (Some Logger) None 0 = Inr c \<and>
       oms_type c = OMS_NETTING \<and> component_id c = ClientId ''SIM'' \<and> msgbus c = sim_bus \<and>
       uuid_source c = 0)"
  using init_oms_type_check [where cid = "ClientId ''SIM''" and ven = "Some ''SIM''" and acct = "AccountType 0"
      and cur = "Some ''USD''" and mb = sim_bus and ca = "\<lambda>k. None" and cl = "\<lparr>time_ns = 0\<rparr>"
      and lgr = Logger and cfg = None and uuids = 0 and oms = OMS_NETTING]
  by simp

text \<open>
  C10. A client just constructed has no account ID and is not connected. A
  generator called on a client without an account ID, if it returns, has sent one message
  whose account ID is \<^verbatim>\<open>None\<close>; and whether a generator raises does not depend on the
  client's account ID.
\<close>

theorem generators_before_account_id:
  "(ExecutionClient_init client_id ven oms acct cur bus cch clk lg cfg uuids = Inr c0 \<longrightarrow>
      account_id c0 = None \<and> \<not> is_connected c0)
   \<and> (account_id c = None \<and> generate c call = Inr c' \<longrightarrow>
        (\<exists>ep m. sent (msgbus c') = sent (msgbus c) @ [(ep, m)] \<and> msg_account_id m = None))
   \<and> ((\<exists>e. generate (c\<lparr>account_id := a\<rparr>) call = Inl e) = (\<exists>e. generate c call = Inl e))"
proof -
  have init: "account_id c0 = None \<and> \<not> is_connected c0"
    if "ExecutionClient_init client_id ven oms acct cur bus cch clk lg cfg uuids = Inr c0"
    using that
    by (auto simp: ExecutionClient_init_def check_defs Let_def split: option.splits if_splits)
  have emitted: "\<exists>ep m. sent (msgbus c') = sent (msgbus c) @ [(ep, m)] \<and> msg_account_id m = None"
    if "account_id c = None \<and> generate c call = Inr c'"
    using that generate_result [of c call c'] by auto
  have no_check: "(\<exists>e. generate (c\<lparr>account_id := a\<rparr>) call = Inl e) = (\<exists>e. generate c call = Inl e)"
    by (cases call)
       (auto simp: generator_defs send_defs check_defs UUID4_new_def venue_order_id_def
             split: option.splits if_splits)
  from init emitted no_check show ?thesis by blast
qed

theorem generators_before_account_id_witness:
  "account_id sim_client = None \<and> \<not> is_connected sim_client
   \<and> (\<exists>c'. generate sim_client (SubmittedCall (Some ''S-001'') (Some ''AUD/USD.SIM'') (Some ''O-1'') 0) = Inr c'
        \<and> (\<exists>ep m. sent (msgbus c') = sent (msgbus sim_client) @ [(ep, m)] \<and> msg_account_id m = None))"
proof -
  have init: "ExecutionClient_init (Some (ClientId ''SIM'')) (Some ''SIM'') OMS_NETTING (AccountType 0)
     (Some ''USD'') (Some sim_bus) (Some (\<lambda>k. None)) (Some \<lparr> time_ns = 0 \<rparr>) (Some Logger) None 0
     = Inr sim_client"
    by (simp add: ExecutionClient_init_def check_defs sim_client_def sim_bus_def dict_get_def)
  obtain c' where gen: "generate sim_client
      (SubmittedCall (Some ''S-001'') (Some ''AUD/USD.SIM'') (Some ''O-1'') 0) = Inr c'"
    by (simp add: generate_order_submitted_def UUID4_new_def)
  have none: "account_id sim_client = None" by (simp add: sim_client_def)
  from generators_before_account_id [where ?c0.0 = sim_client and c = sim_client and c' = c'
      and call = "SubmittedCall (Some ''S-001'') (Some ''AUD/USD.SIM'') (Some ''O-1'') 0"
      and client_id = "Some (ClientId ''SIM'')" and ven = "Some ''SIM''" and oms = OMS_NETTING
      and acct = "AccountType 0" and cur = "Some ''USD''" and bus = "Some sim_bus" and cch = "Some (\<lambda>k. None)"
      and clk = "Some \<lparr> time_ns = 0 \<rparr>" and lg = "Some Logger" and cfg = None and uuids = 0]
    init gen none
  show ?thesis by blast
qed

subsection \<open>The venue order ID check of an update\<close>

text \<open>
  C1. (as amended) \<^verbatim>\<open>generate_order_updated\<close> raises when the client order ID or the
  venue order ID is \<^verbatim>\<open>None\<close>, whatever \<^verbatim>\<open>venue_order_id_modified\<close> is. With both
  present: if \<^verbatim>\<open>venue_order_id_modified\<close> is false and the cache does not map the client
  order ID to the venue order ID supplied, it raises and sends nothing; if
  \<^verbatim>\<open>venue_order_id_modified\<close> is true or the cache maps the client order ID to that venue
  order ID, it sends one \<^verbatim>\<open>OrderUpdated\<close> event to \<^verbatim>\<open>ExecEngine.process\<close>.
\<close>

theorem order_updated_checks:
  "generate_order_updated c s i None void q p tp ts modified
      = Inl (ConditionFailed NotNone ''client_order_id'')
   \<and> generate_order_updated c s i (Some k) None q p tp ts modified
      = Inl (ConditionFailed NotNone ''venue_order_id'')
   \<and> (\<not> modified \<and> venue_order_id (cache c) k \<noteq> Some v \<longrightarrow>
        generate_order_updated c s i (Some k) (Some v) q p tp ts modified
          = Inl (ConditionFailed Equal ''existing''))
   \<and> (modified \<or> venue_order_id (cache c) k = Some v \<longrightarrow>
      (\<exists>c' ev. generate_order_updated c s i (Some k) (Some v) q p tp ts modified = Inr c' \<and>
         e_payload ev = OrderUpdated (Some v) q p tp \<and> e_client_order_id ev = Some k \<and>
         sent (msgbus c') = sent (msgbus c) @ [(''ExecEngine.process'', MsgOrderEvent ev)]))"
  by (auto simp: generate_order_updated_def send_defs check_defs UUID4_new_def)

theorem order_updated_checks_witness:
  "generate_order_updated sim_client (Some ''S-001'') (Some ''AUD/USD.SIM'') None (Some ''V-1'')
       None None None 0 True = Inl (ConditionFailed NotNone ''client_order_id'')
   \<and> generate_order_updated (sim_client\<lparr>cache := [''O-1'' \<mapsto> ''V-1'']\<rparr>) (Some ''S-001'')
       (Some ''AUD/USD.SIM'') (Some ''O-1'') (Some ''V-2'') None None None 0 False
       = Inl (ConditionFailed Equal ''existing'')
   \<and> (\<exists>c' ev. generate_order_updated (sim_client\<lparr>cache := [''O-1'' \<mapsto> ''V-1'']\<rparr>) (Some ''S-001'')
           (Some ''AUD/USD.SIM'') (Some ''O-1'') (Some ''V-1'') None None None 0 False = Inr c' \<and>
         e_payload ev = OrderUpdated (Some ''V-1'') None None None \<and>
         e_client_order_id ev = Some ''O-1'' \<and>
         sent (msgbus c') = [(''ExecEngine.process'', MsgOrderEvent ev)])"
  using order_updated_checks [where c = sim_client and s = "Some ''S-001''"
      and i = "Some ''AUD/USD.SIM''" and v = "''V-1''" and k = "''O-1''" and q = None and p = None
      and tp = None and ts = 0 and modified = True and void = "Some ''V-1''"]
    order_updated_checks [where c = "sim_client\<lparr>cache := [''O-1'' \<mapsto> ''V-1'']\<rparr>"
      and s = "Some ''S-001''" and i = "Some ''AUD/USD.SIM''" and k = "''O-1''" and v = "''V-2''"
      and q = None and p = None and tp = None and ts = 0 and modified = False]
    order_updated_checks [where c = "sim_client\<lparr>cache := [''O-1'' \<mapsto> ''V-1'']\<rparr>"
      and s = "Some ''S-001''" and i = "Some ''AUD/USD.SIM''" and k = "''O-1''" and v = "''V-1''"
      and q = None and p = None and tp = None and ts = 0 and modified = False]
  by (simp add: venue_order_id_def sim_client_def sim_bus_def)

text \<open>
  C1. as stated fails: with \<^verbatim>\<open>venue_order_id_modified\<close> true and no venue order ID,
  the call raises and no event is sent.
\<close>

theorem order_updated_modified_none_counterexample:
  "generate_order_updated sim_client (Some ''S-001'') (Some ''AUD/USD.SIM'') (Some ''O-1'') None
     None None None 0 True = Inl (ConditionFailed NotNone ''venue_order_id'')"
  by (simp add: generate_order_updated_def check_defs)

section \<open>Properties of wildcard matching\<close>

lemma is_matching_iff: "is_matching topic pattern = (topic \<in> topics_of pattern)"
proof (induction topic pattern rule: is_matching.induct)
  case 1
  then show ?case by simp
next
  case (2 t ts)
  then show ?case by simp
next
  case (3 p ps)
  then show ?case by auto
next
  case (4 t ts p ps)
  show ?case
  proof (cases "p = CHR ''*''")
    case True
    have "(t # ts \<in> topics_of (p # ps)) = (t # ts \<in> topics_of ps \<or> ts \<in> topics_of (p # ps))"
      using True by (auto simp: Cons_eq_append_conv)
    with 4 True show ?thesis by simp
  next
    case False
    with 4 show ?thesis by auto
  qed
qed

lemma topics_of_literal:
  "CHR ''*'' \<notin> set pattern \<Longrightarrow> CHR ''?'' \<notin> set pattern \<Longrightarrow> topics_of pattern = {pattern}"
  by (induction pattern) auto

text \<open>
  C4. The wildcard match is an anchored match of the whole topic: \<^verbatim>\<open>msgbus_is_matching\<close>
  returns 1 exactly for the topics the pattern stands for, where \<^verbatim>\<open>*\<close> stands for zero or
  more characters and \<^verbatim>\<open>?\<close> for exactly one, and 0 otherwise. A pattern without
  \<^verbatim>\<open>*\<close> and \<^verbatim>\<open>?\<close> matches itself only, \<^verbatim>\<open>?\<close> alone matches the topics of length one
  and \<^verbatim>\<open>*\<close> alone matches every topic. \<^verbatim>\<open>comp*\<close> matches \<^verbatim>\<open>comp\<close>, \<^verbatim>\<open>complete\<close> and
  \<^verbatim>\<open>computer\<close>; \<^verbatim>\<open>c?mp\<close> matches \<^verbatim>\<open>camp\<close> and \<^verbatim>\<open>comp\<close> but not \<^verbatim>\<open>cmp\<close> or
  \<^verbatim>\<open>champ\<close>; \<^verbatim>\<open>c*p\<close> matches \<^verbatim>\<open>cp\<close>, \<^verbatim>\<open>comp\<close> and \<^verbatim>\<open>clamp\<close>.
\<close>

theorem wildcard_matching:
  "(msgbus_is_matching topic pattern = 1) = (topic \<in> topics_of pattern)
   \<and> (msgbus_is_matching topic pattern = 0) = (topic \<notin> topics_of pattern)
   \<and> (CHR ''*'' \<notin> set pattern \<and> CHR ''?'' \<notin> set pattern \<longrightarrow>
        is_matching topic pattern = (topic = pattern))
   \<and> is_matching topic ''?'' = (length topic = 1)
   \<and> is_matching topic ''*''
   \<and> msgbus_is_matching ''comp'' ''comp*'' = 1
   \<and> msgbus_is_matching ''complete'' ''comp*'' = 1
   \<and> msgbus_is_matching ''computer'' ''comp*'' = 1
   \<and> msgbus_is_matching ''camp'' ''c?mp'' = 1
   \<and> msgbus_is_matching ''comp'' ''c?mp'' = 1
   \<and> msgbus_is_matching ''cmp'' ''c?mp'' = 0
   \<and> msgbus_is_matching ''champ'' ''c?mp'' = 0
   \<and> msgbus_is_matching ''cp'' ''c*p'' = 1
   \<and> msgbus_is_matching ''comp'' ''c*p'' = 1
   \<and> msgbus_is_matching ''clamp'' ''c*p'' = 1"
proof -
  have full: "(msgbus_is_matching topic pattern = 1) = (topic \<in> topics_of pattern)"
    "(msgbus_is_matching topic pattern = 0) = (topic \<notin> topics_of pattern)"
    by (simp_all add: msgbus_is_matching_def is_matching_iff)
  have literal: "is_matching topic pattern = (topic = pattern)"
    if "CHR ''*'' \<notin> set pattern \<and> CHR ''?'' \<notin> set pattern"
    using that by (auto simp: is_matching_iff topics_of_literal)
  have one: "is_matching topic ''?'' = (length topic = 1)"
    by (auto simp: is_matching_iff length_Suc_conv)
  have any: "is_matching topic ''*''"
    by (simp add: is_matching_iff)
  have examples: "msgbus_is_matching ''comp'' ''comp*'' = 1"
    "msgbus_is_matching ''complete'' ''comp*'' = 1"
    "msgbus_is_matching ''computer'' ''comp*'' = 1"
    "msgbus_is_matching ''camp'' ''c?mp'' = 1"
    "msgbus_is_matching ''comp'' ''c?mp'' = 1"
    "msgbus_is_matching ''cmp'' ''c?mp'' = 0"
    "msgbus_is_matching ''champ'' ''c?mp'' = 0"
    "msgbus_is_matching ''cp'' ''c*p'' = 1"
    "msgbus_is_matching ''comp'' ''c*p'' = 1"
    "msgbus_is_matching ''clamp'' ''c*p'' = 1"
    by (simp_all add: msgbus_is_matching_def)
  from full literal one any examples show ?thesis by blast
qed

theorem wildcard_matching_witness:
  "is_matching ''data.quotes.BTCUSDT'' ''data.quotes.BTCUSDT''
   \<and> \<not> is_matching ''data.quotes.BTCUSDT.SIM'' ''data.quotes.BTCUSDT''
   \<and> \<not> is_matching ''data.quotes'' ''data.quotes.BTCUSDT''
   \<and> msgbus_is_matching ''data.quotes.BTCUSDT'' ''data.*.BTCUSDT'' = 1
   \<and> ''data.quotes.BTCUSDT'' \<in> topics_of ''data.*.BTCUSDT''"
proof -
  have lit: "CHR ''*'' \<notin> set ''data.quotes.BTCUSDT'' \<and> CHR ''?'' \<notin> set ''data.quotes.BTCUSDT''"
    by simp
  have m: "msgbus_is_matching ''data.quotes.BTCUSDT'' ''data.*.BTCUSDT'' = 1"
    by (simp add: msgbus_is_matching_def)
  from wildcard_matching [of "''data.quotes.BTCUSDT''" "''data.quotes.BTCUSDT''"]
    wildcard_matching [of "''data.quotes.BTCUSDT.SIM''" "''data.quotes.BTCUSDT''"]
    wildcard_matching [of "''data.quotes''" "''data.quotes.BTCUSDT''"]
    wildcard_matching [of "''data.quotes.BTCUSDT''" "''data.*.BTCUSDT''"]
    lit m
  show ?thesis by simp
qed

section \<open>Properties of the component lifecycle\<close>

lemmas table_defs = transition_def transition_table_def all_states_def terminal_def receive_def

lemma transition_listed:
  "\<not> terminal s \<Longrightarrow> (transition s t = Inr s') = (((s, t), s') \<in> set transition_table)"
  by (cases s; cases t; simp add: table_defs; blast?)

lemma transition_unlisted:
  "\<forall>s'. ((s, t), s') \<notin> set transition_table \<Longrightarrow> transition s t = Inl (InvalidStateTrigger s t)"
  by (cases "map_of transition_table (s, t)") (auto simp: transition_def dest: map_of_SomeD)

lemma transition_rows:
  "(transition s t = Inr s') =
     (s = PRE_INITIALIZED \<and> t = INITIALIZE \<and> s' = READY
      \<or> s = READY \<and> t = START \<and> s' = STARTING
      \<or> s = STARTING \<and> t = START_COMPLETED \<and> s' = RUNNING
      \<or> s = RUNNING \<and> t = STOP \<and> s' = STOPPING
      \<or> s = STOPPING \<and> t = STOP_COMPLETED \<and> s' = STOPPED
      \<or> s = STOPPED \<and> t = RESUME \<and> s' = RESUMING
      \<or> s = RESUMING \<and> t = RESUME_COMPLETED \<and> s' = RUNNING
      \<or> (s = STOPPED \<or> s = DEGRADED) \<and> t = RESET \<and> s' = RESETTING
      \<or> s = RESETTING \<and> t = RESET_COMPLETED \<and> s' = READY
      \<or> s \<noteq> DISPOSED \<and> s \<noteq> FAULTED \<and> t = DISPOSE \<and> s' = DISPOSING
      \<or> s = DISPOSING \<and> t = DISPOSE_COMPLETED \<and> s' = DISPOSED
      \<or> s = RUNNING \<and> t = DEGRADE \<and> s' = DEGRADING
      \<or> s = DEGRADING \<and> t = DEGRADE_COMPLETED \<and> s' = DEGRADED
      \<or> s \<noteq> DISPOSED \<and> s \<noteq> FAULTED \<and> t = FAULT \<and> s' = FAULTING
      \<or> s = FAULTING \<and> t = FAULT_COMPLETED \<and> s' = FAULTED)"
  by (cases s; cases t; simp add: table_defs; blast?)

text \<open>
  C5. The transition function maps (state, trigger) pairs exactly per the table of spec
  4.3: a transition is made if and only if the pair is a row of the table, the rows
  "any non-terminal | DISPOSE" and "any | FAULT" holding from every state that is not
  terminal. For every state and every trigger not listed for that state the transition
  raises an error and the state is unchanged. No trigger leads out of the terminal states
  \<^verbatim>\<open>DISPOSED\<close> and \<^verbatim>\<open>FAULTED\<close>.
\<close>

theorem lifecycle_transitions:
  "(transition s t = Inr s') =
     (s = PRE_INITIALIZED \<and> t = INITIALIZE \<and> s' = READY
      \<or> s = READY \<and> t = START \<and> s' = STARTING
      \<or> s = STARTING \<and> t = START_COMPLETED \<and> s' = RUNNING
      \<or> s = RUNNING \<and> t = STOP \<and> s' = STOPPING
      \<or> s = STOPPING \<and> t = STOP_COMPLETED \<and> s' = STOPPED
      \<or> s = STOPPED \<and> t = RESUME \<and> s' = RESUMING
      \<or> s = RESUMING \<and> t = RESUME_COMPLETED \<and> s' = RUNNING
      \<or> (s = STOPPED \<or> s = DEGRADED) \<and> t = RESET \<and> s' = RESETTING
      \<or> s = RESETTING \<and> t = RESET_COMPLETED \<and> s' = READY
      \<or> s \<noteq> DISPOSED \<and> s \<noteq> FAULTED \<and> t = DISPOSE \<and> s' = DISPOSING
      \<or> s = DISPOSING \<and> t = DISPOSE_COMPLETED \<and> s' = DISPOSED
      \<or> s = RUNNING \<and> t = DEGRADE \<and> s' = DEGRADING
      \<or> s = DEGRADING \<and> t = DEGRADE_COMPLETED \<and> s' = DEGRADED
      \<or> s \<noteq> DISPOSED \<and> s \<noteq> FAULTED \<and> t = FAULT \<and> s' = FAULTING
      \<or> s = FAULTING \<and> t = FAULT_COMPLETED \<and> s' = FAULTED)
   \<and> ((\<forall>s'. transition s t \<noteq> Inr s') \<longrightarrow>
        receive s t = (s, Some (InvalidStateTrigger s t)))
   \<and> (\<not> terminal s \<longrightarrow> (transition s t = Inr s') = (((s, t), s') \<in> set transition_table))
   \<and> (\<not> terminal s \<longrightarrow> transition s DISPOSE = Inr DISPOSING \<and> transition s FAULT = Inr FAULTING)
   \<and> ((\<forall>s'. ((s, t), s') \<notin> set transition_table) \<longrightarrow>
        receive s t = (s, Some (InvalidStateTrigger s t)))
   \<and> (terminal s \<longrightarrow> receive s t = (s, Some (InvalidStateTrigger s t)))
   \<and> (transition s t = Inr s' \<longrightarrow> receive s t = (s', None))
   \<and> transition PRE_INITIALIZED INITIALIZE = Inr READY
   \<and> transition READY START = Inr STARTING
   \<and> transition STARTING START_COMPLETED = Inr RUNNING
   \<and> transition RUNNING STOP = Inr STOPPING
   \<and> transition STOPPING STOP_COMPLETED = Inr STOPPED
   \<and> transition STOPPED RESUME = Inr RESUMING
   \<and> transition RESUMING RESUME_COMPLETED = Inr RUNNING
   \<and> transition STOPPED RESET = Inr RESETTING
   \<and> transition DEGRADED RESET = Inr RESETTING
   \<and> transition RESETTING RESET_COMPLETED = Inr READY
   \<and> transition DISPOSING DISPOSE_COMPLETED = Inr DISPOSED
   \<and> transition RUNNING DEGRADE = Inr DEGRADING
   \<and> transition DEGRADING DEGRADE_COMPLETED = Inr DEGRADED
   \<and> transition FAULTING FAULT_COMPLETED = Inr FAULTED"
proof -
  have any: "transition s DISPOSE = Inr DISPOSING \<and> transition s FAULT = Inr FAULTING"
    if "\<not> terminal s"
    using that by (cases s; simp add: table_defs)
  have unlisted: "receive s t = (s, Some (InvalidStateTrigger s t))"
    if "\<forall>s'. ((s, t), s') \<notin> set transition_table"
    using transition_unlisted [OF that] by (simp add: receive_def)
  have final: "receive s t = (s, Some (InvalidStateTrigger s t))" if "terminal s"
    using that by (simp add: transition_def receive_def)
  have moved: "receive s t = (s', None)" if "transition s t = Inr s'"
    using that by (simp add: receive_def)
  have stays: "receive s t = (s, Some (InvalidStateTrigger s t))"
    if "\<forall>s'. transition s t \<noteq> Inr s'"
    using that by (cases "transition s t") (auto simp: receive_def transition_def split: if_splits option.splits)
  have rows: "transition PRE_INITIALIZED INITIALIZE = Inr READY"
    "transition READY START = Inr STARTING"
    "transition STARTING START_COMPLETED = Inr RUNNING"
    "transition RUNNING STOP = Inr STOPPING"
    "transition STOPPING STOP_COMPLETED = Inr STOPPED"
    "transition STOPPED RESUME = Inr RESUMING"
    "transition RESUMING RESUME_COMPLETED = Inr RUNNING"
    "transition STOPPED RESET = Inr RESETTING"
    "transition DEGRADED RESET = Inr RESETTING"
    "transition RESETTING RESET_COMPLETED = Inr READY"
    "transition DISPOSING DISPOSE_COMPLETED = Inr DISPOSED"
    "transition RUNNING DEGRADE = Inr DEGRADING"
    "transition DEGRADING DEGRADE_COMPLETED = Inr DEGRADED"
    "transition FAULTING FAULT_COMPLETED = Inr FAULTED"
    by (simp_all add: table_defs)
  from transition_rows [of s t s'] stays transition_listed [of s t s'] any unlisted final moved
    rows
  show ?thesis by blast
qed

theorem lifecycle_transitions_witness:
  "receive STOPPED START = (STOPPED, Some (InvalidStateTrigger STOPPED START))
   \<and> receive STOPPED RESET = (RESETTING, None)
   \<and> receive RESETTING RESET_COMPLETED = (READY, None)
   \<and> receive READY START = (STARTING, None)
   \<and> transition READY FAULT = Inr FAULTING
   \<and> receive FAULTED RESET = (FAULTED, Some (InvalidStateTrigger FAULTED RESET))"
proof -
  have a: "\<forall>s'. ((STOPPED, START), s') \<notin> set transition_table"
    by (simp add: transition_table_def all_states_def terminal_def)
  have b: "\<not> terminal STOPPED" "\<not> terminal RESETTING" "\<not> terminal READY" "terminal FAULTED"
    by (simp_all add: terminal_def)
  have c: "((STOPPED, RESET), RESETTING) \<in> set transition_table"
    "((RESETTING, RESET_COMPLETED), READY) \<in> set transition_table"
    "((READY, START), STARTING) \<in> set transition_table"
    by (simp_all add: transition_table_def)
  from lifecycle_transitions [of STOPPED START]
    lifecycle_transitions [of STOPPED RESET RESETTING]
    lifecycle_transitions [of RESETTING RESET_COMPLETED READY]
    lifecycle_transitions [of READY START STARTING]
    lifecycle_transitions [of FAULTED RESET]
    a b c
  show ?thesis by simp
qed

section \<open>Properties of the test clock\<close>

lemma unat_add_fit:
  "unat a + unat b < 2 ^ 64 \<Longrightarrow> unat (a + b) = unat a + unat b" for a b :: "64 word"
  by (simp add: unat_add_lem [THEN iffD1])

lemma due_times_set:
  "i \<noteq> 0 \<Longrightarrow> set (due_times n i hi) = {t. t \<le> hi \<and> (\<exists>k. unat t = unat n + k * unat i)}"
proof (induction n i hi rule: due_times.induct)
  case (1 n i hi)
  have ipos: "0 < unat i" using 1(2) by (simp add: unat_gt_0)
  show ?case
  proof (cases "hi < n")
    case True
    have "\<not> (t \<le> hi \<and> (\<exists>k. unat t = unat n + k * unat i))" for t
    proof
      assume "t \<le> hi \<and> (\<exists>k. unat t = unat n + k * unat i)"
      then have "unat t \<le> unat hi" "unat n \<le> unat t" by (auto simp: word_le_nat_alt)
      with True show False by (simp add: word_less_nat_alt)
    qed
    with True show ?thesis by (subst due_times.simps) simp
  next
    case False
    then have nle: "n \<le> hi" by simp
    show ?thesis
    proof (cases "unat n + unat i < 2 ^ 64")
      case True
      then have s: "unat (n + i) = unat n + unat i"
        by (simp add: unat_add_lem [THEN iffD1])
      from 1(1) [OF _ True 1(2)] False 1(2) s
      have IH: "set (due_times (n + i) i hi) = {t. t \<le> hi \<and> (\<exists>k. unat t = unat n + unat i + k * unat i)}"
        by simp
      have "{t. t \<le> hi \<and> (\<exists>k. unat t = unat n + k * unat i)}
          = insert n {t. t \<le> hi \<and> (\<exists>k. unat t = unat n + unat i + k * unat i)}"
      proof (intro set_eqI iffI)
        fix t assume "t \<in> {t. t \<le> hi \<and> (\<exists>k. unat t = unat n + k * unat i)}"
        then obtain k where le: "t \<le> hi" and k: "unat t = unat n + k * unat i" by blast
        show "t \<in> insert n {t. t \<le> hi \<and> (\<exists>k. unat t = unat n + unat i + k * unat i)}"
        proof (cases k)
          case 0
          with k have "t = n" by (simp add: word_unat_eq_iff)
          then show ?thesis by simp
        next
          case (Suc j)
          with k have "unat t = unat n + unat i + j * unat i" by simp
          with le show ?thesis by blast
        qed
      next
        fix t assume "t \<in> insert n {t. t \<le> hi \<and> (\<exists>k. unat t = unat n + unat i + k * unat i)}"
        then consider "t = n" | k where "t \<le> hi" "unat t = unat n + unat i + k * unat i" by blast
        then show "t \<in> {t. t \<le> hi \<and> (\<exists>k. unat t = unat n + k * unat i)}"
        proof cases
          case 1
          with nle have "t \<le> hi \<and> unat t = unat n + 0 * unat i" by simp
          then show ?thesis by blast
        next
          case 2
          then have "unat t = unat n + Suc k * unat i" by simp
          with 2 show ?thesis by blast
        qed
      qed
      with IH False True 1(2) show ?thesis
        by (subst due_times.simps) simp
    next
      case over: False
      have "{t. t \<le> hi \<and> (\<exists>k. unat t = unat n + k * unat i)} = {n}"
      proof (intro set_eqI iffI)
        fix t assume "t \<in> {t. t \<le> hi \<and> (\<exists>k. unat t = unat n + k * unat i)}"
        then obtain k where k: "unat t = unat n + k * unat i" by blast
        have "k = 0"
        proof (rule ccontr)
          assume "k \<noteq> 0"
          then have "unat i \<le> k * unat i" by (cases k) auto
          then have "unat n + unat i \<le> unat n + k * unat i" by simp
          with over have "2 ^ 64 \<le> unat n + k * unat i" by linarith
          with k have "2 ^ 64 \<le> unat t" by simp
          moreover have "unat t < 2 ^ 64" using unsigned_less [of t, where ?'a = nat] by simp
          ultimately show False by simp
        qed
        with k have "t = n" by (simp add: word_unat_eq_iff)
        then show "t \<in> {n}" by simp
      next
        fix t assume "t \<in> {n}"
        with nle have "t \<le> hi \<and> unat t = unat n + 0 * unat i" by simp
        then show "t \<in> {t. t \<le> hi \<and> (\<exists>k. unat t = unat n + k * unat i)}" by blast
      qed
      with False over 1(2) show ?thesis
        by (subst due_times.simps) simp
    qed
  qed
qed


lemma due_times_ge: "t \<in> set (due_times n i hi) \<Longrightarrow> n \<le> t"
proof (induction n i hi rule: due_times.induct)
  case (1 n i hi)
  from 1(2) have c: "\<not> (i = 0 \<or> hi < n)"
    by (subst (asm) due_times.simps) (auto split: if_splits)
  show ?case
  proof (cases "unat n + unat i < 2 ^ 64")
    case True
    then have s: "unat (n + i) = unat n + unat i"
      by (simp add: unat_add_lem [THEN iffD1])
    from 1(2) c True have "t = n \<or> t \<in> set (due_times (n + i) i hi)"
      by (subst (asm) due_times.simps) (auto split: if_splits)
    then show ?thesis
    proof
      assume "t = n" then show ?thesis by simp
    next
      assume "t \<in> set (due_times (n + i) i hi)"
      from 1(1) [OF c True this] have "unat (n + i) \<le> unat t" by (simp add: word_le_nat_alt)
      with s show ?thesis by (simp add: word_le_nat_alt)
    qed
  next
    case False
    with 1(2) c have "t = n"
      by (subst (asm) due_times.simps) (auto split: if_splits)
    then show ?thesis by simp
  qed
qed

lemma due_times_distinct: "distinct (due_times n i hi)"
proof (induction n i hi rule: due_times.induct)
  case (1 n i hi)
  show ?case
  proof (cases "i = 0 \<or> hi < n")
    case True
    then show ?thesis by (subst due_times.simps) simp
  next
    case c: False
    show ?thesis
    proof (cases "unat n + unat i < 2 ^ 64")
      case True
      then have s: "unat (n + i) = unat n + unat i"
        by (simp add: unat_add_lem [THEN iffD1])
      from c have "0 < unat i" by (simp add: unat_gt_0)
      with s have "\<not> n + i \<le> n" by (simp add: word_le_nat_alt)
      then have "n \<notin> set (due_times (n + i) i hi)"
        using due_times_ge [of n "n + i" i hi] by blast
      with 1 c True show ?thesis by (subst due_times.simps) simp
    next
      case False
      with c show ?thesis by (subst due_times.simps) simp
    qed
  qed
qed

lemma filter_eq_distinct:
  "distinct xs \<Longrightarrow> filter (\<lambda>x. x = t) xs = (if t \<in> set xs then [t] else [])"
  by (induction xs) auto

lemma timer_fires_iff:
  fixes s i t :: "64 word"
  assumes "i \<noteq> 0"
  shows "(unat s + unat i < 2 ^ 64 \<and> (\<exists>k. unat t = unat (s + i) + k * unat i))
       = (\<exists>k. 1 \<le> k \<and> unat t = unat s + k * unat i)"
proof
  assume a: "unat s + unat i < 2 ^ 64 \<and> (\<exists>k. unat t = unat (s + i) + k * unat i)"
  then have "unat s + unat i < 2 ^ 64" by blast
  then have "unat (s + i) = unat s + unat i"
    by (rule unat_add_fit)
  with a obtain k where "unat t = unat s + unat i + k * unat i" by auto
  then have "1 \<le> Suc k \<and> unat t = unat s + Suc k * unat i" by simp
  then show "\<exists>k. 1 \<le> k \<and> unat t = unat s + k * unat i" by blast
next
  assume "\<exists>k. 1 \<le> k \<and> unat t = unat s + k * unat i"
  then obtain k where k: "1 \<le> k" "unat t = unat s + k * unat i" by blast
  then obtain j where j: "k = Suc j" by (cases k) auto
  with k have e: "unat t = unat s + unat i + j * unat i" by simp
  have "unat t < 2 ^ 64" using unsigned_less [of t, where ?'a = nat] by simp
  with e have fit: "unat s + unat i < 2 ^ 64" by simp
  then have "unat (s + i) = unat s + unat i"
    by (rule unat_add_fit)
  with e fit show "unat s + unat i < 2 ^ 64 \<and> (\<exists>k. unat t = unat (s + i) + k * unat i)"
    by auto
qed

lemma firings_at:
  assumes "positive_interval tm"
  shows "filter (\<lambda>e. snd e = t) (firings now hi tm) =
           (if now < t \<and> t \<le> hi \<and> fires_at now hi tm t then [(timer_name tm, t)] else [])"
proof (cases tm)
  case (TimeAlert name a)
  then show ?thesis by auto
next
  case (Timer name i s stop)
  with assms have i: "i \<noteq> 0" by simp
  define lim where "lim = (if stop = 0 then hi else min hi stop)"
  define due where "due = due_times (s + i) i lim"
  have d: "distinct (filter (\<lambda>x. now < x) due)"
    unfolding due_def by (simp add: due_times_distinct)
  have lim: "(t \<le> lim) = (t \<le> hi \<and> (stop = 0 \<or> t \<le> stop))"
    by (auto simp: lim_def)
  have mem: "(unat s + unat i < 2 ^ 64 \<and> t \<in> set due) = (t \<le> hi \<and> fires_at now hi tm t)"
    unfolding due_def using Timer timer_fires_iff [OF i, of s t]
    by (auto simp: due_times_set [OF i] lim)
  show ?thesis
  proof (cases "unat s + unat i < 2 ^ 64")
    case True
    have "filter (\<lambda>e. snd e = t) (firings now hi tm)
        = map (\<lambda>x. (name, x)) (filter (\<lambda>x. x = t) (filter (\<lambda>x. now < x) due))"
      unfolding due_def lim_def using Timer True by (simp add: filter_map comp_def)
    also have "\<dots> = (if now < t \<and> t \<in> set due then [(name, t)] else [])"
      using filter_eq_distinct [OF d, of t] by auto
    finally show ?thesis using mem True Timer by auto
  next
    case False
    with mem have "\<not> (t \<le> hi \<and> fires_at now hi tm t)" by blast
    with False Timer show ?thesis by auto
  qed
qed

lemma concat_map_if:
  "concat (map (\<lambda>x. if c x then [f x] else []) xs) = map f (filter c xs)"
  by (induction xs) auto

lemma events_at:
  assumes "list_all positive_interval tms"
  shows "filter (\<lambda>e. snd e = t) (sort_key snd (concat (map (firings now hi) tms)))
         = map (\<lambda>tm. (timer_name tm, t))
             (filter (\<lambda>tm. now < t \<and> t \<le> hi \<and> fires_at now hi tm t) tms)"
proof -
  have "filter (\<lambda>e. snd e = t) (sort_key snd (concat (map (firings now hi) tms)))
        = filter (\<lambda>e. snd e = t) (concat (map (firings now hi) tms))"
    by (rule sort_key_stable)
  also have "\<dots> = concat (map (\<lambda>tm. filter (\<lambda>e. snd e = t) (firings now hi tm)) tms)"
    by (simp add: filter_concat comp_def)
  also have "\<dots> = concat (map (\<lambda>tm. if now < t \<and> t \<le> hi \<and> fires_at now hi tm t
                                      then [(timer_name tm, t)] else []) tms)"
    using assms by (intro arg_cong [where f = concat] map_cong refl firings_at)
      (simp add: list_all_iff)
  also have "\<dots> = map (\<lambda>tm. (timer_name tm, t))
      (filter (\<lambda>tm. now < t \<and> t \<le> hi \<and> fires_at now hi tm t) tms)"
    by (rule concat_map_if)
  finally show ?thesis .
qed

lemma firings_name: "e \<in> set (firings now hi tm) \<Longrightarrow> fst e = timer_name tm"
  by (cases tm) (auto split: if_splits)

lemma firings_distinct: "distinct (firings now hi tm)"
  by (cases tm) (auto simp: distinct_map due_times_distinct inj_on_def)

lemma concat_firings_distinct:
  "distinct (map timer_name tms) \<Longrightarrow> distinct (concat (map (firings now hi) tms))"
proof (induction tms)
  case Nil
  then show ?case by simp
next
  case (Cons tm tms)
  have "set (firings now hi tm) \<inter> set (concat (map (firings now hi) tms)) = {}"
  proof (rule ccontr)
    assume "set (firings now hi tm) \<inter> set (concat (map (firings now hi) tms)) \<noteq> {}"
    then obtain e tm' where e: "e \<in> set (firings now hi tm)" and tm': "tm' \<in> set tms"
      and e': "e \<in> set (firings now hi tm')"
      by auto
    from firings_name [OF e] firings_name [OF e'] have "timer_name tm = timer_name tm'" by simp
    with tm' Cons.prems show False by auto
  qed
  with Cons show ?case by (simp add: firings_distinct)
qed

lemma fired_alert_iff:
  "fired_alert now hi tm =
     (\<exists>n a. tm = TimeAlert n a \<and> (\<exists>t. now < t \<and> t \<le> hi \<and> fires_at now hi tm t))"
proof (cases tm)
  case (TimeAlert n a)
  have "(now < a \<and> a \<le> hi \<or> a \<le> now \<and> now < hi)
      = (\<exists>t. now < t \<and> t \<le> hi \<and> t = (if a \<le> now then hi else a))"
    by auto
  with TimeAlert show ?thesis by simp
next
  case (Timer n i s stop)
  then show ?thesis by simp
qed

lemma same_name:
  "distinct (map timer_name tms) \<Longrightarrow> tm \<in> set tms \<Longrightarrow> tm' \<in> set tms \<Longrightarrow>
   timer_name tm' = timer_name tm \<Longrightarrow> tm' = tm"
  by (auto simp: distinct_map inj_on_def)

text \<open>
  C6. On a clock whose timers were registered (names not shared, intervals
  positive), with current time \<open>t0\<close>, \<^verbatim>\<open>advance_time(t1, set_time)\<close> returns its events
  in ascending \<^verbatim>\<open>ts_event\<close> order; for every time \<open>t\<close> the events with that
  \<^verbatim>\<open>ts_event\<close> are exactly the timers and alerts that fire at \<open>t\<close> with
  \<open>t0 < t \<le> t1\<close>, in registration order, so a firing is returned if and only if it lies
  in the half-open interval, and once; an alert is removed exactly when its firing is
  returned, everything else stays; afterwards \<^verbatim>\<open>timestamp_ns()\<close> is \<open>t1\<close> if
  \<^verbatim>\<open>set_time\<close> is true and unchanged otherwise.
\<close>

theorem advance_time_firings:
  assumes reg: "registered tc"
    and adv: "test_clock_advance_time tc t1 set_time = (events, tc')"
  shows "sorted (map snd events)
    \<and> filter (\<lambda>e. snd e = t) events
        = map (\<lambda>tm. (timer_name tm, t))
            (filter (\<lambda>tm. tc_time_ns tc < t \<and> t \<le> t1 \<and> fires_at (tc_time_ns tc) t1 tm t)
               (tc_timers tc))
    \<and> ((name, t) \<in> set events)
        = (tc_time_ns tc < t \<and> t \<le> t1 \<and>
           (\<exists>tm \<in> set (tc_timers tc). timer_name tm = name \<and> fires_at (tc_time_ns tc) t1 tm t))
    \<and> distinct events
    \<and> tc_timers tc'
        = filter (\<lambda>tm. \<not> (\<exists>n a. tm = TimeAlert n a \<and> (\<exists>u. (n, u) \<in> set events))) (tc_timers tc)
    \<and> test_clock_timestamp_ns tc' = (if set_time then t1 else test_clock_timestamp_ns tc)
    \<and> registered tc'"
proof -
  define now where "now = tc_time_ns tc"
  define tms where "tms = tc_timers tc"
  from reg have pos: "list_all positive_interval tms" and names: "distinct (map timer_name tms)"
    by (simp_all add: registered_def tms_def)
  from adv have ev: "events = sort_key snd (concat (map (firings now t1) tms))"
    and rest: "tc_timers tc' = filter (\<lambda>tm. \<not> fired_alert now t1 tm) tms"
    and time: "tc_time_ns tc' = (if set_time then t1 else now)"
    by (auto simp: test_clock_advance_time_def Let_def now_def tms_def)
  have sorted: "sorted (map snd events)"
    unfolding ev by (rule sorted_sort_key)
  have at: "filter (\<lambda>e. snd e = u) events
        = map (\<lambda>tm. (timer_name tm, u))
            (filter (\<lambda>tm. now < u \<and> u \<le> t1 \<and> fires_at now t1 tm u) tms)"
    for u
    unfolding ev by (rule events_at [OF pos])
  have mem: "((n, u) \<in> set events)
        = (now < u \<and> u \<le> t1 \<and> (\<exists>tm \<in> set tms. timer_name tm = n \<and> fires_at now t1 tm u))"
    for n u
  proof -
    have "((n, u) \<in> set events) = ((n, u) \<in> set (filter (\<lambda>e. snd e = u) events))"
      by simp
    also have "\<dots> = (now < u \<and> u \<le> t1 \<and>
        (\<exists>tm \<in> set tms. timer_name tm = n \<and> fires_at now t1 tm u))"
      unfolding at by auto
    finally show ?thesis .
  qed
  have dist: "distinct events"
    unfolding ev using concat_firings_distinct [OF names] by simp
  have gone: "filter (\<lambda>tm. \<not> fired_alert now t1 tm) tms
      = filter (\<lambda>tm. \<not> (\<exists>n a. tm = TimeAlert n a \<and> (\<exists>u. (n, u) \<in> set events))) tms"
  proof (rule filter_cong [OF refl])
    fix tm assume tm: "tm \<in> set tms"
    have "(\<exists>n a. tm = TimeAlert n a \<and> (\<exists>u. (n, u) \<in> set events))
        = (\<exists>n a. tm = TimeAlert n a \<and> (\<exists>u. now < u \<and> u \<le> t1 \<and> fires_at now t1 tm u))"
    proof (cases tm)
      case (TimeAlert n a)
      have "(\<exists>tm' \<in> set tms. timer_name tm' = n \<and> fires_at now t1 tm' u) = fires_at now t1 tm u"
        for u
      proof
        assume "\<exists>tm' \<in> set tms. timer_name tm' = n \<and> fires_at now t1 tm' u"
        then obtain tm' where t': "tm' \<in> set tms" "timer_name tm' = n" "fires_at now t1 tm' u"
          by blast
        with same_name [OF names tm t'(1)] TimeAlert have "tm' = tm" by simp
        with t' show "fires_at now t1 tm u" by simp
      next
        assume "fires_at now t1 tm u"
        with tm TimeAlert show "\<exists>tm' \<in> set tms. timer_name tm' = n \<and> fires_at now t1 tm' u"
          by force
      qed
      with TimeAlert show ?thesis by (simp add: mem)
    next
      case (Timer n i s stop)
      then show ?thesis by simp
    qed
    then show "(\<not> fired_alert now t1 tm)
        = (\<not> (\<exists>n a. tm = TimeAlert n a \<and> (\<exists>u. (n, u) \<in> set events)))"
      by (simp only: fired_alert_iff)
  qed
  have reg': "registered tc'"
    using names pos unfolding registered_def rest
    by (auto simp: distinct_map_filter list_all_iff)
  from sorted at [of t] mem [of name t] dist rest gone time reg' show ?thesis
    by (simp add: now_def tms_def test_clock_timestamp_ns_def)
qed

lemma s3_advance:
  "test_clock_advance_time s3_clock 1000000000 True =
     ([(''timer'', 250000000), (''timer'', 500000000), (''timer'', 750000000),
       (''alert'', 1000000000), (''timer'', 1000000000)],
      \<lparr> tc_time_ns = 1000000000, tc_timers = [Timer ''timer'' 250000000 0 0] \<rparr>)"
  by (simp add: test_clock_advance_time_def s3_clock_def due_times.simps)

lemma late_advance:
  "test_clock_advance_time late_alert_clock 20 False =
     ([(''late'', 20)], \<lparr> tc_time_ns = 10, tc_timers = [] \<rparr>)"
  by (simp add: test_clock_advance_time_def late_alert_clock_def)

theorem advance_time_firings_witness:
  "registered s3_clock
   \<and> test_clock_advance_time s3_clock 1000000000 True =
     ([(''timer'', 250000000), (''timer'', 500000000), (''timer'', 750000000),
       (''alert'', 1000000000), (''timer'', 1000000000)],
      \<lparr> tc_time_ns = 1000000000, tc_timers = [Timer ''timer'' 250000000 0 0] \<rparr>)
   \<and> sorted (map snd [(''timer'', 250000000 :: 64 word), (''timer'', 500000000),
       (''timer'', 750000000), (''alert'', 1000000000), (''timer'', 1000000000)])
   \<and> filter (\<lambda>e. snd e = 1000000000) [(''timer'', 250000000 :: 64 word), (''timer'', 500000000),
       (''timer'', 750000000), (''alert'', 1000000000), (''timer'', 1000000000)]
       = [(''alert'', 1000000000), (''timer'', 1000000000)]
   \<and> test_clock_timestamp_ns \<lparr> tc_time_ns = 1000000000, tc_timers = [Timer ''timer'' 250000000 0 0] \<rparr>
       = 1000000000
   \<and> registered late_alert_clock
   \<and> test_clock_advance_time late_alert_clock 20 False =
       ([(''late'', 20)], \<lparr> tc_time_ns = 10, tc_timers = [] \<rparr>)
   \<and> filter (\<lambda>e. snd e = 20) [(''late'', 20 :: 64 word)] = [(''late'', 20)]
   \<and> test_clock_timestamp_ns \<lparr> tc_time_ns = 10, tc_timers = [] \<rparr> = 10"
proof -
  have reg: "registered s3_clock"
    by (simp add: registered_def s3_clock_def)
  note th = advance_time_firings [OF reg s3_advance, of 1000000000 "''alert''"]
  have ordered: "sorted (map snd [(''timer'', 250000000 :: 64 word), (''timer'', 500000000),
       (''timer'', 750000000), (''alert'', 1000000000), (''timer'', 1000000000)])"
    by (rule th [THEN conjunct1])
  have alert: "fires_at 0 1000000000 (TimeAlert ''alert'' 1000000000) 1000000000"
    by simp
  have "unat (1000000000 :: 64 word) = unat (0 :: 64 word) + 4 * unat (250000000 :: 64 word)"
    by simp
  then have timer: "fires_at 0 1000000000 (Timer ''timer'' 250000000 0 0) 1000000000"
    unfolding fires_at.simps by (intro conjI exI [of _ 4]) simp_all
  have tie: "filter (\<lambda>e. snd e = 1000000000) [(''timer'', 250000000 :: 64 word),
       (''timer'', 500000000), (''timer'', 750000000), (''alert'', 1000000000),
       (''timer'', 1000000000)]
       = [(''alert'', 1000000000), (''timer'', 1000000000)]"
    unfolding th [THEN conjunct2, THEN conjunct1]
    using alert timer by (simp add: s3_clock_def)
  have time: "test_clock_timestamp_ns
       \<lparr> tc_time_ns = 1000000000, tc_timers = [Timer ''timer'' 250000000 0 0] \<rparr> = 1000000000"
    using th [THEN conjunct2, THEN conjunct2, THEN conjunct2, THEN conjunct2, THEN conjunct2,
      THEN conjunct1]
    by simp
  have reg2: "registered late_alert_clock"
    by (simp add: registered_def late_alert_clock_def)
  note th2 = advance_time_firings [OF reg2 late_advance, of 20 "''late''"]
  have late: "filter (\<lambda>e. snd e = 20) [(''late'', 20 :: 64 word)] = [(''late'', 20)]"
    unfolding th2 [THEN conjunct2, THEN conjunct1]
    by (simp add: late_alert_clock_def)
  have time2: "test_clock_timestamp_ns \<lparr> tc_time_ns = 10, tc_timers = [] \<rparr> = 10"
    using th2 [THEN conjunct2, THEN conjunct2, THEN conjunct2, THEN conjunct2, THEN conjunct2,
      THEN conjunct1]
    by (simp add: test_clock_timestamp_ns_def late_alert_clock_def)
  from reg s3_advance ordered tie time reg2 late_advance late time2 show ?thesis
    by (intro conjI)
qed

end
